theory Spec2Isabelle
  imports
    Complex_Main
    "HOL-Library.Word"
    "HOL-Library.Signed_Division"
    "HOL-Library.Log_Nat"
    "HOL-Library.Char_ord"
    "HOL-Library.List_Lexorder"
begin

chapter \<open>The CloudWatch output plugin (plugins/outputs/cloudwatch/cloudwatch.go)\<close>

text \<open>
  A shallow embedding of the conversion core of the plugin: \<open>convert\<close>,
  \<open>getStatisticType\<close>, the two implementations of \<open>cloudwatchField\<close>,
  \<open>BuildDimensions\<close>, \<open>BuildMetricDatum\<close>, \<open>PartitionDatums\<close> and
  \<open>Write\<close>. Every definition follows the Go function of the same name.

  Conventions of the embedding.
  \<^item> A Go pointer field of the AWS types (\<open>*string\<close>, \<open>*float64\<close>, \<open>*int32\<close>,
    \<open>*time.Time\<close>, \<open>*StatisticSet\<close>) is an \<open>option\<close>: \<open>None\<close> is \<open>nil\<close>, and
    \<open>aws.String x\<close>, \<open>aws.Float64 x\<close>, ... are \<open>Some x\<close>.
  \<^item> A Go map that is only read (\<open>point.Tags()\<close>, \<open>point.Fields()\<close>) is an association
    list with distinct keys; the order of the list is the order in which \<open>range\<close>
    visits the map, which Go leaves unspecified, so a property is stated for every such
    list.
  \<^item> A Go map that is written (\<open>fields\<close>, \<open>f.values\<close>) is a HOL map \<open>'k \<rightharpoonup> 'v\<close>; a
    \<open>range\<close> over it takes the list of keys in the order the runtime visits them as an
    explicit argument, and a property is stated for every list \<open>ks\<close> with
    \<open>range_order m ks\<close>.
  \<^item> A run-time panic is a value \<open>Inl p\<close> of the result type \<open>panic + 'a\<close>.
\<close>

section \<open>Data model\<close>

subsection \<open>Go values\<close>

text \<open>
  A \<open>float64\<close> is a finite value, an infinity or NaN. A finite value is carried as the real
  number it denotes; the reals that are not representable in 64 bits are more values than
  Go has, never fewer. \<open>math.IsNaN\<close>, \<open>math.IsInf\<close> and the comparison \<open><\<close> are the IEEE
  ones: every comparison with NaN is false.
\<close>

datatype float64 = Finite real | PosInf | NegInf | NaN

definition IsNaN :: "float64 \<Rightarrow> bool" where
  "IsNaN f = (f = NaN)"

definition IsInf :: "float64 \<Rightarrow> int \<Rightarrow> bool" where
  "IsInf f sign = ((sign \<ge> 0 \<and> f = PosInf) \<or> (sign \<le> 0 \<and> f = NegInf))"

fun float64_less :: "float64 \<Rightarrow> float64 \<Rightarrow> bool" where
  "float64_less NaN b = False"
| "float64_less a NaN = False"
| "float64_less (Finite x) (Finite y) = (x < y)"
| "float64_less (Finite x) PosInf = True"
| "float64_less (Finite x) NegInf = False"
| "float64_less PosInf b = False"
| "float64_less NegInf NegInf = False"
| "float64_less NegInf b = True"

text \<open>
  The conversion \<open>float64(t)\<close> of an integer rounds to the nearest value with a 53-bit
  significand, ties to even. \<open>floorlog 2 n\<close> is the number of bits of \<open>n\<close>, so \<open>k\<close> is the
  number of low bits that do not fit; below \<open>2 ^ 53\<close> it is \<open>0\<close> and the conversion is exact.
\<close>

definition round_to_float64 :: "nat \<Rightarrow> nat" where
  "round_to_float64 n =
     (let k = floorlog 2 n - 53;
          q = n div 2 ^ k;
          r = n mod 2 ^ k
      in if 2 * r < 2 ^ k \<or> (2 * r = 2 ^ k \<and> even q) then q * 2 ^ k else (q + 1) * 2 ^ k)"

definition float64_of_int :: "int \<Rightarrow> float64" where
  "float64_of_int i =
     Finite (if i < 0 then - real (round_to_float64 (nat (- i)))
             else real (round_to_float64 (nat i)))"

text \<open>
  A \<open>time.Time\<close> is observed by this file only through \<open>Unix()\<close>, its count of seconds
  since the epoch as an \<open>int64\<close>.
\<close>

datatype Time = UnixTime (Unix: "64 word")

text \<open>
  The dynamic type of a field value (\<open>interface{}\<close>). Go's \<open>int\<close> and \<open>uint\<close> are taken at
  64 bits. \<open>GoOther\<close> stands for a value of any type not listed (a slice, a struct,
  \<open>nil\<close>).
\<close>

datatype go_value =
    GoInt "64 word"
  | GoInt8 "8 word"
  | GoInt16 "16 word"
  | GoInt32 "32 word"
  | GoInt64 "64 word"
  | GoUint "64 word"
  | GoUint8 "8 word"
  | GoUint16 "16 word"
  | GoUint32 "32 word"
  | GoUint64 "64 word"
  | GoFloat32 float64
  | GoFloat64 float64
  | GoBool bool
  | GoString string
  | GoTime Time
  | GoOther

subsection \<open>The plugin's types\<close>

datatype statisticType =
    statisticTypeNone
  | statisticTypeMax
  | statisticTypeMin
  | statisticTypeSum
  | statisticTypeCount

text \<open>\<open>types.Dimension\<close>, \<open>types.StatisticSet\<close> and \<open>types.MetricDatum\<close> of the AWS SDK,
  with the fields this file sets.\<close>

record Dimension =
  Name :: "string option"
  Value :: "string option"

record StatisticSet =
  Maximum :: "float64 option"
  Minimum :: "float64 option"
  SampleCount :: "float64 option"
  Sum :: "float64 option"

record MetricDatum =
  MetricName :: "string option"
  Dimensions :: "Dimension list"
  Timestamp :: "Time option"
  Value :: "float64 option"
  StatisticValues :: "StatisticSet option"
  StorageResolution :: "32 word option"

text \<open>\<open>telegraf.Metric\<close>, through the four methods the plugin calls.\<close>

record Metric =
  Name :: string
  Tags :: "(string \<times> string) list"
  Fields :: "(string \<times> go_value) list"
  Time :: Time

record statisticField =
  metricName :: string
  fieldName :: string
  tags :: "(string \<times> string) list"
  "values" :: "statisticType \<rightharpoonup> float64"
  timestamp :: Time
  storageResolution :: "64 word"

record valueField =
  metricName :: string
  fieldName :: string
  tags :: "(string \<times> string) list"
  "value" :: float64
  timestamp :: Time
  storageResolution :: "64 word"

text \<open>The interface \<open>cloudwatchField\<close> has these two implementations.\<close>

datatype cloudwatchField =
    StatisticField statisticField
  | ValueField valueField

text \<open>The plugin's configuration, as far as \<open>Write\<close> reads it.\<close>

record CloudWatch =
  Namespace :: string
  HighResolutionMetrics :: bool
  WriteStatistics :: bool

datatype panic = DivideByZero | MakeSliceLenOutOfRange | SliceBoundsOutOfRange

section \<open>Operations\<close>

subsection \<open>Library functions the plugin calls\<close>

text \<open>\<open>strings.Join\<close>, \<open>strings.HasSuffix\<close> and \<open>strings.TrimSuffix\<close>.\<close>

fun Join :: "string list \<Rightarrow> string \<Rightarrow> string" where
  "Join [] sep = []"
| "Join [x] sep = x"
| "Join (x # y # ys) sep = x @ sep @ Join (y # ys) sep"

definition HasSuffix :: "string \<Rightarrow> string \<Rightarrow> bool" where
  "HasSuffix s suffix =
     (length s \<ge> length suffix \<and> drop (length s - length suffix) s = suffix)"

definition TrimSuffix :: "string \<Rightarrow> string \<Rightarrow> string" where
  "TrimSuffix s suffix =
     (if HasSuffix s suffix then take (length s - length suffix) s else s)"

text \<open>
  An index expression \<open>m[k]\<close> on a map yields the zero value of the element type for a key
  that is absent: \<open>""\<close> for the tags, \<open>0\<close> for the statistic values.
\<close>

definition index_tags :: "(string \<times> string) list \<Rightarrow> string \<Rightarrow> string" where
  "index_tags mTags k = (case map_of mTags k of None \<Rightarrow> '''' | Some v \<Rightarrow> v)"

definition index_values :: "(statisticType \<rightharpoonup> float64) \<Rightarrow> statisticType \<Rightarrow> float64" where
  "index_values vs k = (case vs k of None \<Rightarrow> Finite 0 | Some v \<Rightarrow> v)"

text \<open>
  \<open>range_order m ks\<close>: the list \<open>ks\<close> is an order in which a \<open>range\<close> statement can visit
  the keys of the map \<open>m\<close>, each key once.
\<close>

definition range_order :: "('k \<rightharpoonup> 'v) \<Rightarrow> 'k list \<Rightarrow> bool" where
  "range_order m ks = (distinct ks \<and> set ks = dom m)"

subsection \<open>\<open>BuildDimensions\<close>\<close>

definition MaxDimensions :: nat where
  "MaxDimensions = 10"

text \<open>The loop over the sorted keys: \<open>break\<close> at the limit, \<open>continue\<close> on an empty value.\<close>

fun BuildDimensions_loop ::
  "(string \<times> string) list \<Rightarrow> string list \<Rightarrow> Dimension list \<Rightarrow> Dimension list" where
  "BuildDimensions_loop mTags [] dimensions = dimensions"
| "BuildDimensions_loop mTags (k # keys) dimensions =
     (if length dimensions \<ge> MaxDimensions then dimensions
      else
        let v = index_tags mTags k
        in if v = '''' then BuildDimensions_loop mTags keys dimensions
           else BuildDimensions_loop mTags keys
                  (dimensions @ [\<lparr>Dimension.Name = Some k, Value = Some (index_tags mTags k)\<rparr>]))"

definition BuildDimensions :: "(string \<times> string) list \<Rightarrow> Dimension list" where
  "BuildDimensions mTags =
     (let dimensions =
            (case map_of mTags ''host'' of
               Some host \<Rightarrow> [\<lparr>Dimension.Name = Some ''host'', Value = Some host\<rparr>]
             | None \<Rightarrow> []);
          keys = sort (filter (\<lambda>k. k \<noteq> ''host'') (map fst mTags))
      in BuildDimensions_loop mTags keys dimensions)"

subsection \<open>\<open>statisticField\<close>\<close>

definition statisticField_addValue ::
  "statisticField \<Rightarrow> statisticType \<Rightarrow> float64 \<Rightarrow> statisticField" where
  "statisticField_addValue f sType v =
     (if sType \<noteq> statisticTypeNone then f\<lparr>values := (values f)(sType \<mapsto> v)\<rparr> else f)"

definition hasAllFields :: "statisticField \<Rightarrow> bool" where
  "hasAllFields f =
     (let hasMin = (values f statisticTypeMin \<noteq> None);
          hasMax = (values f statisticTypeMax \<noteq> None);
          hasSum = (values f statisticTypeSum \<noteq> None);
          hasCount = (values f statisticTypeCount \<noteq> None)
      in hasMin \<and> hasMax \<and> hasSum \<and> hasCount)"

text \<open>
  The \<open>else\<close> branch of \<open>buildDatum\<close>: the loop \<open>for sType, value := range f.values\<close>, over
  the keys in the order \<open>range\<close> visits them (a kind of the list that is no key of the map
  is not visited). The datum is built without a storage resolution and without a name;
  the \<open>switch\<close> names it, and its \<open>default\<close> case skips the entry.
\<close>

fun statisticField_range ::
  "statisticField \<Rightarrow> statisticType list \<Rightarrow> MetricDatum list \<Rightarrow> MetricDatum list" where
  "statisticField_range f [] datums = datums"
| "statisticField_range f (sType # rest) datums =
     (case values f sType of
        None \<Rightarrow> statisticField_range f rest datums
      | Some v \<Rightarrow>
          let datum = \<lparr>MetricName = None,
                       Dimensions = BuildDimensions (statisticField.tags f),
                       Timestamp = Some (statisticField.timestamp f),
                       Value = Some v,
                       StatisticValues = None,
                       StorageResolution = None\<rparr>
          in case sType of
               statisticTypeMin \<Rightarrow>
                 statisticField_range f rest (datums @ [datum\<lparr>MetricName :=
                   Some (Join [statisticField.metricName f, statisticField.fieldName f, ''min''] ''_'')\<rparr>])
             | statisticTypeMax \<Rightarrow>
                 statisticField_range f rest (datums @ [datum\<lparr>MetricName :=
                   Some (Join [statisticField.metricName f, statisticField.fieldName f, ''max''] ''_'')\<rparr>])
             | statisticTypeSum \<Rightarrow>
                 statisticField_range f rest (datums @ [datum\<lparr>MetricName :=
                   Some (Join [statisticField.metricName f, statisticField.fieldName f, ''sum''] ''_'')\<rparr>])
             | statisticTypeCount \<Rightarrow>
                 statisticField_range f rest (datums @ [datum\<lparr>MetricName :=
                   Some (Join [statisticField.metricName f, statisticField.fieldName f, ''count''] ''_'')\<rparr>])
             | statisticTypeNone \<Rightarrow> statisticField_range f rest datums)"

definition statisticField_buildDatum ::
  "statisticField \<Rightarrow> statisticType list \<Rightarrow> MetricDatum list" where
  "statisticField_buildDatum f order =
     (if hasAllFields f then
        let min' = index_values (values f) statisticTypeMin;
            max' = index_values (values f) statisticTypeMax;
            sum' = index_values (values f) statisticTypeSum;
            count' = index_values (values f) statisticTypeCount;
            datum = \<lparr>MetricName =
                       Some (Join [statisticField.metricName f, statisticField.fieldName f] ''_''),
                     Dimensions = BuildDimensions (statisticField.tags f),
                     Timestamp = Some (statisticField.timestamp f),
                     Value = None,
                     StatisticValues = Some \<lparr>Maximum = Some max', Minimum = Some min',
                                              SampleCount = Some count', Sum = Some sum'\<rparr>,
                     StorageResolution = Some (scast (statisticField.storageResolution f))\<rparr>
        in [] @ [datum]
      else statisticField_range f order [])"

subsection \<open>\<open>valueField\<close>\<close>

definition valueField_addValue ::
  "valueField \<Rightarrow> statisticType \<Rightarrow> float64 \<Rightarrow> valueField" where
  "valueField_addValue f sType v =
     (if sType = statisticTypeNone then f\<lparr>value := v\<rparr> else f)"

definition valueField_buildDatum :: "valueField \<Rightarrow> MetricDatum list" where
  "valueField_buildDatum f =
     [\<lparr>MetricName = Some (Join [metricName f, fieldName f] ''_''),
       Dimensions = BuildDimensions (tags f),
       Timestamp = Some (timestamp f),
       Value = Some (value f),
       StatisticValues = None,
       StorageResolution = Some (scast (storageResolution f))\<rparr>]"

text \<open>The two methods of the interface, dispatched on the implementation.\<close>

fun addValue :: "cloudwatchField \<Rightarrow> statisticType \<Rightarrow> float64 \<Rightarrow> cloudwatchField" where
  "addValue (StatisticField f) sType v = StatisticField (statisticField_addValue f sType v)"
| "addValue (ValueField f) sType v = ValueField (valueField_addValue f sType v)"

fun buildDatum :: "cloudwatchField \<Rightarrow> statisticType list \<Rightarrow> MetricDatum list" where
  "buildDatum (StatisticField f) order = statisticField_buildDatum f order"
| "buildDatum (ValueField f) order = valueField_buildDatum f"

subsection \<open>\<open>PartitionDatums\<close>\<close>

text \<open>
  A slice expression \<open>s[lo:hi]\<close> panics unless \<open>0 \<le> lo \<le> hi \<le> cap(s)\<close>. The plugin clamps
  \<open>hi\<close> to \<open>len(s)\<close> first, so the length stands for the capacity here.
\<close>

definition slice :: "'a list \<Rightarrow> int \<Rightarrow> int \<Rightarrow> panic + 'a list" where
  "slice xs lo hi =
     (if 0 \<le> lo \<and> lo \<le> hi \<and> hi \<le> int (length xs)
      then Inr (take (nat (hi - lo)) (drop (nat lo) xs))
      else Inl SliceBoundsOutOfRange)"

text \<open>
  The loop \<open>for i := 0; i < numberOfPartitions; i++\<close>. The counter only counts up from
  \<open>0\<close>, so it is a natural number; \<open>size\<close> and \<open>numberOfPartitions\<close> are Go \<open>int\<close>s. The
  products stay below \<open>2 * len(datums)\<close> whenever a second pass is made, so no 64-bit
  product wraps.
\<close>

function partition_loop ::
  "int \<Rightarrow> 'a list \<Rightarrow> int \<Rightarrow> nat \<Rightarrow> 'a list list \<Rightarrow> panic + 'a list list" where
  "partition_loop size' datums numberOfPartitions i partitions =
     (if int i < numberOfPartitions then
        (let start = size' * int i;
             end0 = size' * (int i + 1);
             end' = (if end0 > int (length datums) then int (length datums) else end0)
         in case slice datums start end' of
              Inl p \<Rightarrow> Inl p
            | Inr s \<Rightarrow>
                partition_loop size' datums numberOfPartitions (i + 1) (partitions[i := s]))
      else Inr partitions)"
  by pat_completeness auto
termination
  by (relation "measure (\<lambda>(size', datums, n, i, ps). nat (n - int i))") auto

declare partition_loop.simps [simp del]

text \<open>
  Go's \<open>/\<close> and \<open>%\<close> on integers truncate towards zero (\<open>sdiv\<close>, \<open>smod\<close>) and panic on a zero
  divisor; \<open>make\<close> panics on a negative length.
\<close>

definition PartitionDatums :: "int \<Rightarrow> 'a list \<Rightarrow> panic + 'a list list" where
  "PartitionDatums size' datums =
     (if size' = 0 then Inl DivideByZero
      else
        let n0 = int (length datums) sdiv size';
            numberOfPartitions = (if int (length datums) smod size' \<noteq> 0 then n0 + 1 else n0)
        in if numberOfPartitions < 0 then Inl MakeSliceLenOutOfRange
           else partition_loop size' datums numberOfPartitions 0
                  (replicate (nat numberOfPartitions) []))"

subsection \<open>\<open>getStatisticType\<close>\<close>

definition getStatisticType :: "string \<Rightarrow> statisticType \<times> string" where
  "getStatisticType name =
     (if HasSuffix name ''_max'' then (statisticTypeMax, TrimSuffix name ''_max'')
      else if HasSuffix name ''_min'' then (statisticTypeMin, TrimSuffix name ''_min'')
      else if HasSuffix name ''_sum'' then (statisticTypeSum, TrimSuffix name ''_sum'')
      else if HasSuffix name ''_count'' then (statisticTypeCount, TrimSuffix name ''_count'')
      else (statisticTypeNone, name))"

subsection \<open>\<open>convert\<close>\<close>

text \<open>
  The two bounds are the constants \<open>float64(8.515920e-109)\<close> and \<open>float64(1.174271e+108)\<close>:
  the 64-bit values nearest to the decimal literals, \<open>0x1.000000a161e4bp-359\<close> and
  \<open>0x1.fffff7ac784e1p+358\<close>, written here with their integer significands.
\<close>

definition lowerBound :: float64 where
  "lowerBound = Finite (4503599796592203 / 2 ^ 411)"

definition upperBound :: float64 where
  "upperBound = Finite (9007197019669729 * 2 ^ 306)"

text \<open>The type switch: \<open>None\<close> is its \<open>default\<close> case.\<close>

fun convert_switch :: "go_value \<Rightarrow> float64 option" where
  "convert_switch (GoInt t) = Some (float64_of_int (sint t))"
| "convert_switch (GoInt32 t) = Some (float64_of_int (sint t))"
| "convert_switch (GoInt64 t) = Some (float64_of_int (sint t))"
| "convert_switch (GoUint64 t) = Some (float64_of_int (uint t))"
| "convert_switch (GoFloat64 t) = Some t"
| "convert_switch (GoBool t) = Some (if t then Finite 1 else Finite 0)"
| "convert_switch (GoTime t) = Some (float64_of_int (sint (Unix t)))"
| "convert_switch v = None"

text \<open>The result is the pair \<open>(value, ok)\<close>; the boundary checks return \<open>0, false\<close>.\<close>

definition convert :: "go_value \<Rightarrow> float64 \<times> bool" where
  "convert v =
     (case convert_switch v of
        None \<Rightarrow> (Finite 0, False)
      | Some x \<Rightarrow>
          if IsNaN x then (Finite 0, False)
          else if IsInf x 0 then (Finite 0, False)
          else if float64_less (Finite 0) x \<and> float64_less x lowerBound then (Finite 0, False)
          else if float64_less upperBound x then (Finite 0, False)
          else (x, True))"

subsection \<open>\<open>BuildMetricDatum\<close>\<close>

text \<open>
  One pass of the loop \<open>for k, v := range point.Fields()\<close> on the map \<open>fields\<close>. The method
  call \<open>fields[fieldName].addValue(sType, val)\<close> goes through the pointer stored in the
  map, so the map holds the updated accumulator afterwards.
\<close>

definition BuildMetricDatum_field ::
  "bool \<Rightarrow> 64 word \<Rightarrow> Metric \<Rightarrow> (string \<rightharpoonup> cloudwatchField) \<Rightarrow> string \<times> go_value
     \<Rightarrow> (string \<rightharpoonup> cloudwatchField)" where
  "BuildMetricDatum_field buildStatistic storageRes point fields' kv =
     (let k = fst kv; v = snd kv; (val, ok) = convert v
      in if \<not> ok then fields'
         else
           let (sType, fName) = getStatisticType k
           in if \<not> buildStatistic \<or> sType = statisticTypeNone then
                fields'(k \<mapsto> ValueField
                  \<lparr>metricName = Metric.Name point, fieldName = k, tags = Tags point,
                    value = val, timestamp = Time point, storageResolution = storageRes\<rparr>)
              else
                (case fields' fName of
                   None \<Rightarrow>
                     fields'(fName \<mapsto> StatisticField
                       \<lparr>statisticField.metricName = Metric.Name point, fieldName = fName,
                         tags = Tags point, values = [sType \<mapsto> val],
                         timestamp = Time point, storageResolution = storageRes\<rparr>)
                 | Some f \<Rightarrow> fields'(fName \<mapsto> addValue f sType val)))"

text \<open>The map \<open>fields\<close> after the first loop.\<close>

definition BuildMetricDatum_fields ::
  "bool \<Rightarrow> bool \<Rightarrow> Metric \<Rightarrow> (string \<rightharpoonup> cloudwatchField)" where
  "BuildMetricDatum_fields buildStatistic highResolutionMetrics point =
     (let storageRes = (if highResolutionMetrics then 1 else 60)
      in foldl (BuildMetricDatum_field buildStatistic storageRes point) Map.empty (Fields point))"

text \<open>
  The second loop, \<open>for _, f := range fields\<close>, visits the keys in the order
  \<open>fieldsOrder\<close> (a string of the list that is no key of the map is not visited); the
  accumulator stored under the key \<open>k\<close> ranges over its own values in the order
  \<open>valuesOrder k\<close>.
\<close>

definition BuildMetricDatum ::
  "bool \<Rightarrow> bool \<Rightarrow> Metric \<Rightarrow> string list \<Rightarrow> (string \<Rightarrow> statisticType list)
     \<Rightarrow> MetricDatum list" where
  "BuildMetricDatum buildStatistic highResolutionMetrics point fieldsOrder valuesOrder =
     (let fields' = BuildMetricDatum_fields buildStatistic highResolutionMetrics point
      in concat (map (\<lambda>k. case fields' k of
                              None \<Rightarrow> []
                            | Some f \<Rightarrow> buildDatum f (valuesOrder k)) fieldsOrder))"

subsection \<open>\<open>Write\<close>\<close>

text \<open>
  The client \<open>c.svc\<close> is outside the plugin. Its method \<open>PutMetricData\<close> is a parameter
  \<open>put\<close>: from the state of the service and the request it gives the error returned
  (\<open>None\<close> is \<open>nil\<close>) and the next state. The world of a write holds that state, the
  requests made so far in order, and the lines written with \<open>c.Log.Errorf\<close>.
\<close>

datatype error = Error (message: string)

record PutMetricDataInput =
  MetricData :: "MetricDatum list"
  Namespace :: "string option"

record 's world =
  svc :: 's
  requests :: "PutMetricDataInput list"
  logged :: "string list"

definition WriteToCloudWatch ::
  "('s \<Rightarrow> PutMetricDataInput \<Rightarrow> error option \<times> 's) \<Rightarrow> CloudWatch \<Rightarrow> 's world
     \<Rightarrow> MetricDatum list \<Rightarrow> error option \<times> 's world" where
  "WriteToCloudWatch put c w datums =
     (let params = \<lparr>MetricData = datums, Namespace = Some (CloudWatch.Namespace c)\<rparr>;
          (err, s) = put (svc w) params;
          w' = w\<lparr>svc := s, requests := requests w @ [params]\<rparr>
      in case err of
           None \<Rightarrow> (None, w')
         | Some e \<Rightarrow>
             (Some e, w'\<lparr>logged := logged w' @ [''Unable to write to CloudWatch : '' @ message e]\<rparr>))"

text \<open>The loop over the partitions: the first error is returned at once.\<close>

fun Write_partitions ::
  "('s \<Rightarrow> PutMetricDataInput \<Rightarrow> error option \<times> 's) \<Rightarrow> CloudWatch \<Rightarrow> 's world
     \<Rightarrow> MetricDatum list list \<Rightarrow> error option \<times> 's world" where
  "Write_partitions put c w [] = (None, w)"
| "Write_partitions put c w (part # rest) =
     (case WriteToCloudWatch put c w part of
        (Some err, w') \<Rightarrow> (Some err, w')
      | (None, w') \<Rightarrow> Write_partitions put c w' rest)"

definition maxDatumsPerCall :: int where
  "maxDatumsPerCall = 20"

text \<open>
  The datums of all metrics, in the order of the metrics; \<open>orders i\<close> gives the two
  \<open>range\<close> orders taken while the \<open>i\<close>-th metric is built.
\<close>

definition Write_datums ::
  "CloudWatch \<Rightarrow> Metric list \<Rightarrow> (nat \<Rightarrow> string list \<times> (string \<Rightarrow> statisticType list))
     \<Rightarrow> MetricDatum list" where
  "Write_datums c metrics orders =
     concat (map (\<lambda>(i, m). BuildMetricDatum (WriteStatistics c) (HighResolutionMetrics c) m
                              (fst (orders i)) (snd (orders i)))
                 (enumerate 0 metrics))"

definition Write ::
  "('s \<Rightarrow> PutMetricDataInput \<Rightarrow> error option \<times> 's) \<Rightarrow> CloudWatch \<Rightarrow> 's world
     \<Rightarrow> Metric list \<Rightarrow> (nat \<Rightarrow> string list \<times> (string \<Rightarrow> statisticType list))
     \<Rightarrow> panic + (error option \<times> 's world)" where
  "Write put c w metrics orders =
     (case PartitionDatums maxDatumsPerCall (Write_datums c metrics orders) of
        Inl p \<Rightarrow> Inl p
      | Inr partitions \<Rightarrow> Inr (Write_partitions put c w partitions))"

section \<open>Vocabulary of the properties\<close>

text \<open>
  The suffix that the \<open>switch\<close> of \<open>buildDatum\<close> gives the name of an independent datum,
  and the datum one pass of its loop appends for the kind \<open>k\<close>: named
  \<open><metric>_<field>_<kindname>\<close>, with the value stored for \<open>k\<close> as its scalar.
\<close>

definition kindname :: "statisticType \<Rightarrow> string" where
  "kindname k =
     (case k of
        statisticTypeMin \<Rightarrow> ''min''
      | statisticTypeMax \<Rightarrow> ''max''
      | statisticTypeSum \<Rightarrow> ''sum''
      | statisticTypeCount \<Rightarrow> ''count''
      | statisticTypeNone \<Rightarrow> '''')"

definition independent_datum :: "statisticField \<Rightarrow> statisticType \<Rightarrow> MetricDatum" where
  "independent_datum f k =
     \<lparr>MetricName = Some (statisticField.metricName f @ ''_'' @ statisticField.fieldName f
                          @ ''_'' @ kindname k),
      Dimensions = BuildDimensions (statisticField.tags f),
      Timestamp = Some (statisticField.timestamp f),
      Value = values f k,
      StatisticValues = None,
      StorageResolution = None\<rparr>"

text \<open>
  The invariant of the map \<open>fields\<close> while the fields \<open>S\<close> of the metric have been
  visited: a statistic-set accumulator carries the name of the metric and, as its field
  name, the key it is stored under; and each value it holds is stored for a kind other
  than \<open>statisticTypeNone\<close> and is the converted value of a visited field whose name has
  that kind and that base name.
\<close>

definition accumulated ::
  "Metric \<Rightarrow> (string \<times> go_value) set \<Rightarrow> (string \<rightharpoonup> cloudwatchField) \<Rightarrow> bool" where
  "accumulated point S fs =
     (\<forall>k f. fs k = Some (StatisticField f) \<longrightarrow>
        statisticField.metricName f = Metric.Name point
        \<and> statisticField.fieldName f = k
        \<and> (\<forall>kind v. values f kind = Some v \<longrightarrow>
              kind \<noteq> statisticTypeNone
              \<and> (\<exists>name gv. (name, gv) \<in> S \<and> getStatisticType name = (kind, k)
                     \<and> convert gv = (v, True))))"

text \<open>
  The request \<open>WriteToCloudWatch\<close> makes for a partition; the state of the service after
  the requests for the partitions \<open>parts\<close> in turn; and the error the service returns to
  the request for the \<open>i\<close>-th partition when the partitions before it have been
  submitted in order.
\<close>

definition request :: "CloudWatch \<Rightarrow> MetricDatum list \<Rightarrow> PutMetricDataInput" where
  "request c datums = \<lparr>MetricData = datums, Namespace = Some (CloudWatch.Namespace c)\<rparr>"

definition svc_after ::
  "('s \<Rightarrow> PutMetricDataInput \<Rightarrow> error option \<times> 's) \<Rightarrow> CloudWatch \<Rightarrow> 's
     \<Rightarrow> MetricDatum list list \<Rightarrow> 's" where
  "svc_after put c s parts = foldl (\<lambda>s p. snd (put s (request c p))) s parts"

definition response ::
  "('s \<Rightarrow> PutMetricDataInput \<Rightarrow> error option \<times> 's) \<Rightarrow> CloudWatch \<Rightarrow> 's
     \<Rightarrow> MetricDatum list list \<Rightarrow> nat \<Rightarrow> error option" where
  "response put c s parts i = fst (put (svc_after put c s (take i parts)) (request c (parts ! i)))"

section \<open>Properties of \<open>PartitionDatums\<close>\<close>

text \<open>
  For a positive size the loop never panics, and its \<open>j\<close>-th pass stores the slice
  \<open>take k (drop (k * j) datums)\<close>; the lemmas below establish this and count the passes.
\<close>

lemma slice_chunk:
  assumes "0 < k" "k * i \<le> length xs"
  shows "slice xs (int k * int i)
           (if int k * (int i + 1) > int (length xs) then int (length xs) else int k * (int i + 1))
         = Inr (take k (drop (k * i) xs))"
proof -
  have e: "int k * (int i + 1) = int (k * i + k)"
    by (simp add: algebra_simps)
  have lo: "int k * int i = int (k * i)"
    by simp
  have d: "nat (int (k * i + k) - int (k * i)) = k"
    by simp
  show ?thesis
  proof (cases "k * i + k > length xs")
    case True
    then have "length xs - k * i \<le> k" by arith
    then show ?thesis
      unfolding e lo using True assms(2)
      by (simp add: slice_def nat_diff_distrib del: of_nat_mult of_nat_add)
  next
    case False
    then show ?thesis
      unfolding e lo using assms(2) d
      by (simp add: slice_def del: of_nat_mult of_nat_add)
  qed
qed


lemma partition_loop_chunks:
  assumes "0 < k" "length parts = m" "i \<le> m" "m = 0 \<or> k * (m - 1) \<le> length xs"
  shows "partition_loop (int k) xs (int m) i parts
         = Inr (take i parts @ map (\<lambda>j. take k (drop (k * j) xs)) [i..<m])"
  using assms(2,3)
proof (induction "m - i" arbitrary: i parts)
  case 0
  then show ?case
    by (simp add: partition_loop.simps)
next
  case (Suc d)
  then have lt: "i < m" by arith
  then have "i \<le> m - 1" by arith
  then have "k * i \<le> k * (m - 1)" by (rule mult_le_mono2)
  moreover from assms(4) lt have "k * (m - 1) \<le> length xs" by auto
  ultimately have le: "k * i \<le> length xs" by (rule order_trans)
  have step: "partition_loop (int k) xs (int m) i parts
              = partition_loop (int k) xs (int m) (i + 1) (parts[i := take k (drop (k * i) xs)])"
    using lt slice_chunk[OF assms(1) le]
    by (subst partition_loop.simps) (simp add: Let_def)
  have "d = m - (i + 1)" using Suc.hyps(2) by arith
  moreover have "length (parts[i := take k (drop (k * i) xs)]) = m" using Suc.prems by simp
  moreover have "i + 1 \<le> m" using lt by simp
  ultimately have "partition_loop (int k) xs (int m) (i + 1) (parts[i := take k (drop (k * i) xs)])
     = Inr (take (i + 1) (parts[i := take k (drop (k * i) xs)])
            @ map (\<lambda>j. take k (drop (k * j) xs)) [i + 1..<m])"
    by (rule Suc.hyps(1))
  moreover have "take (i + 1) (parts[i := take k (drop (k * i) xs)])
     = take i parts @ [take k (drop (k * i) xs)]"
    using lt Suc.prems(1) by (simp add: take_Suc_conv_app_nth)
  moreover have "[i..<m] = i # [i + 1..<m]"
    using lt by (simp add: upt_conv_Cons)
  ultimately show ?case
    using step by simp
qed

lemma concat_chunks:
  "concat (map (\<lambda>j. take k (drop (k * j) xs)) [0..<m]) = take (k * m) xs"
proof (induction m)
  case 0
  show ?case by simp
next
  case (Suc m)
  have "take (k * m) xs @ take k (drop (k * m) xs) = take (k * m + k) xs"
    by (simp add: take_add)
  with Suc show ?case by (simp add: add.commute)
qed


lemma sdiv_smod_nat:
  "int a sdiv int b = int (a div b)" "int a smod int b = int (a mod b)"
  by (simp_all add: signed_divide_int_def signed_modulo_int_def zdiv_int zmod_int sgn_if)

lemma PartitionDatums_chunks:
  fixes xs :: "'a list" and k :: nat
  assumes "0 < k"
  defines "m \<equiv> length xs div k + (if length xs mod k = 0 then 0 else 1)"
  shows "PartitionDatums (int k) xs = Inr (map (\<lambda>j. take k (drop (k * j) xs)) [0..<m])"
proof -
  have n: "(if int (length xs) smod int k \<noteq> 0 then int (length xs) sdiv int k + 1
            else int (length xs) sdiv int k) = int m"
    by (simp add: sdiv_smod_nat m_def)
  have kd: "k * (length xs div k) \<le> length xs"
    by simp
  have "k * (length xs div k - 1) \<le> k * (length xs div k)"
    by (rule mult_le_mono2) simp
  with kd have "k * (length xs div k - 1) \<le> length xs"
    by (rule order_trans[rotated])
  with kd have bound: "m = 0 \<or> k * (m - 1) \<le> length xs"
    by (simp add: m_def)
  have "PartitionDatums (int k) xs = partition_loop (int k) xs (int m) 0 (replicate m [])"
    using assms(1) unfolding PartitionDatums_def Let_def n by simp
  also have "\<dots> = Inr (take 0 (replicate m []) @ map (\<lambda>j. take k (drop (k * j) xs)) [0..<m])"
    by (rule partition_loop_chunks[OF assms(1) _ _ bound]) simp_all
  finally show ?thesis by simp
qed

lemma chunks_cover:
  fixes xs :: "'a list" and k :: nat
  assumes "0 < k"
  defines "m \<equiv> length xs div k + (if length xs mod k = 0 then 0 else 1)"
  shows "length xs \<le> k * m"
proof -
  have split: "length xs = k * (length xs div k) + length xs mod k" by simp
  have lt: "length xs mod k < k" using assms(1) by simp
  show ?thesis
  proof (cases "length xs mod k = 0")
    case True
    with split show ?thesis by (simp add: m_def)
  next
    case False
    then have "k * m = k * (length xs div k) + k" by (simp add: m_def)
    with split lt show ?thesis by linarith
  qed
qed


lemma last_chunk_bounds:
  fixes xs :: "'a list" and k :: nat
  assumes "0 < k"
  defines "m \<equiv> length xs div k + (if length xs mod k = 0 then 0 else 1)"
  assumes "0 < m"
  shows "k * (m - 1) < length xs" "length xs - k * (m - 1) \<le> k"
proof -
  have split: "length xs = k * (length xs div k) + length xs mod k" by simp
  have lt: "length xs mod k < k" using assms(1) by simp
  have "k * (m - 1) < length xs \<and> length xs - k * (m - 1) \<le> k"
  proof (cases "length xs mod k = 0")
    case True
    with assms(3) have d: "0 < length xs div k" "m = length xs div k" by (simp_all add: m_def)
    then have "k * (m - 1) + k = k * m"
      by (metis Suc_diff_1 add.commute mult_Suc_right)
    with split True d assms(1) show ?thesis by simp
  next
    case False
    then have e: "m - 1 = length xs div k" by (simp add: m_def)
    have "0 < length xs mod k" using False by simp
    with split lt show ?thesis unfolding e by linarith
  qed
  then show "k * (m - 1) < length xs" "length xs - k * (m - 1) \<le> k" by simp_all
qed

text \<open>
  Claim C8. For every list of datums and every size greater than \<open>0\<close>, \<open>PartitionDatums\<close>
  returns (it does not panic) a list of chunks whose concatenation is the input, so the
  chunks are contiguous and in the original order; every chunk but the last has exactly
  \<open>size\<close> elements, and the last one has at least one and at most \<open>size\<close>; the empty list
  gives no chunk at all; and 25 datums with size 20 give two chunks of 20 and 5 datums.
\<close>

theorem PartitionDatums_contiguous_chunks:
  assumes "0 < size'"
  shows "\<exists>ps. PartitionDatums size' datums = Inr ps
           \<and> concat ps = datums
           \<and> (\<forall>p \<in> set (butlast ps). int (length p) = size')
           \<and> (ps \<noteq> [] \<longrightarrow> 0 < length (last ps) \<and> int (length (last ps)) \<le> size')
           \<and> (datums = [] \<longrightarrow> ps = [])
           \<and> (size' = 20 \<and> length datums = 25 \<longrightarrow> map length ps = [20, 5])"
proof -
  define k where "k = nat size'"
  define m where "m = length datums div k + (if length datums mod k = 0 then 0 else 1)"
  define chunk where "chunk = (\<lambda>j. take k (drop (k * j) datums))"
  define ps where "ps = map chunk [0..<m]"
  have k: "0 < k" "size' = int k" using assms by (simp_all add: k_def)
  have run: "PartitionDatums size' datums = Inr ps"
    unfolding ps_def chunk_def m_def k(2) by (rule PartitionDatums_chunks[OF k(1)])
  have cover: "length datums \<le> k * m"
    unfolding m_def by (rule chunks_cover[OF k(1)])
  have cat: "concat ps = datums"
    unfolding ps_def chunk_def using cover by (simp add: concat_chunks)
  have full: "length (chunk j) = k" if "j < m - 1" for j
  proof -
    from that have m0: "0 < m" by simp
    from that have "j + 1 \<le> m - 1" by simp
    then have "k * (j + 1) \<le> k * (m - 1)" by (rule mult_le_mono2)
    moreover have "k * (m - 1) < length datums"
      using last_chunk_bounds(1)[OF k(1), of datums] m0 unfolding m_def by simp
    ultimately have "k * j + k \<le> length datums" by simp
    then show ?thesis by (simp add: chunk_def)
  qed
  have "butlast [0..<m] = [0..<m - 1]"
    by (cases m) simp_all
  then have "butlast ps = map chunk [0..<m - 1]"
    unfolding ps_def by (simp add: map_butlast[symmetric])
  then have all: "\<forall>p \<in> set (butlast ps). int (length p) = size'"
    using full k(2) by auto
  have lastp: "0 < length (last ps) \<and> int (length (last ps)) \<le> size'" if "ps \<noteq> []"
  proof -
    from that have m0: "0 < m" by (simp add: ps_def)
    then have "last ps = chunk (m - 1)"
      unfolding ps_def by (simp add: last_map)
    moreover have "k * (m - 1) < length datums" "length datums - k * (m - 1) \<le> k"
      using last_chunk_bounds[OF k(1), of datums] m0 unfolding m_def by simp_all
    ultimately have "0 < length (last ps) \<and> length (last ps) \<le> k"
      by (simp add: chunk_def)
    then show ?thesis
      unfolding k(2) by (simp del: of_nat_mult)
  qed
  have emp: "ps = []" if "datums = []"
    using that by (simp add: ps_def m_def)
  have ex: "map length ps = [20, 5]" if "size' = 20 \<and> length datums = 25"
  proof -
    from that have "k = 20" "m = 2" by (simp_all add: k_def m_def)
    moreover have "[0..<2] = [0, Suc 0]" by (simp add: upt_rec)
    ultimately show ?thesis
      using that by (simp add: ps_def chunk_def)
  qed
  show ?thesis
  proof (rule exI[of _ ps], intro conjI)
    show "PartitionDatums size' datums = Inr ps" by (rule run)
    show "concat ps = datums" by (rule cat)
    show "\<forall>p \<in> set (butlast ps). int (length p) = size'" by (rule all)
    show "ps \<noteq> [] \<longrightarrow> 0 < length (last ps) \<and> int (length (last ps)) \<le> size'"
      using lastp by (rule impI)
    show "datums = [] \<longrightarrow> ps = []" using emp by (rule impI)
    show "size' = 20 \<and> length datums = 25 \<longrightarrow> map length ps = [20, 5]"
      using ex by (rule impI)
  qed
qed

text \<open>
  The hypotheses of C8 at concrete inputs: three datums with size 2 (a full chunk and a
  shorter last one, both computed), no datum, and 25 datums with size 20.
\<close>

theorem PartitionDatums_contiguous_chunks_witness:
  "(0::int) < 2 \<and> PartitionDatums 2 [1, 2, 3 :: nat] = Inr [[1, 2], [3]]
   \<and> (\<exists>ps. PartitionDatums 2 [1, 2, 3 :: nat] = Inr ps \<and> concat ps = [1, 2, 3])
   \<and> PartitionDatums 2 ([] :: nat list) = Inr []
   \<and> (\<exists>ps. PartitionDatums 20 (replicate 25 (0 :: nat)) = Inr ps \<and> map length ps = [20, 5])"
proof -
  have h: "(0::int) < 2" by simp
  have h20: "(0::int) < 20" by simp
  have e: "PartitionDatums 2 [1, 2, 3 :: nat] = Inr [[1, 2], [3]]"
    by (simp add: PartitionDatums_def partition_loop.simps slice_def
        signed_divide_int_def signed_modulo_int_def numeral_2_eq_2)
  from PartitionDatums_contiguous_chunks[OF h, of "[1, 2, 3 :: nat]"]
  have a: "\<exists>ps. PartitionDatums 2 [1, 2, 3 :: nat] = Inr ps \<and> concat ps = [1, 2, 3]"
    by (elim exE conjE) (rule exI, rule conjI)
  from PartitionDatums_contiguous_chunks[OF h, of "[] :: nat list"]
  have b: "PartitionDatums 2 ([] :: nat list) = Inr []"
    by (elim exE conjE) simp
  from PartitionDatums_contiguous_chunks[OF h20, of "replicate 25 (0 :: nat)"]
  have c: "\<exists>ps. PartitionDatums 20 (replicate 25 (0 :: nat)) = Inr ps \<and> map length ps = [20, 5]"
    by (elim exE conjE) (rule exI, rule conjI, assumption, simp)
  from h e a b c show ?thesis by (intro conjI)
qed

section \<open>Properties of \<open>BuildDimensions\<close>\<close>

text \<open>
  The loop appends, up to the limit, one dimension for every key with a non-empty value;
  so the result is the first ten of: the host dimension if the tag exists, then the other
  keys in ascending order that have a non-empty value.
\<close>

lemma BuildDimensions_loop_take:
  assumes "length ds \<le> MaxDimensions"
  shows "BuildDimensions_loop mTags keys ds =
           ds @ take (MaxDimensions - length ds)
                  (map (\<lambda>k. \<lparr>Dimension.Name = Some k, Value = Some (index_tags mTags k)\<rparr>)
                       (filter (\<lambda>k. index_tags mTags k \<noteq> '''') keys))"
  using assms
proof (induction keys arbitrary: ds)
  case Nil
  show ?case by simp
next
  case (Cons k keys)
  show ?case
  proof (cases "length ds \<ge> MaxDimensions")
    case True
    with Cons.prems show ?thesis by simp
  next
    case False
    then have lt: "length ds < MaxDimensions" by simp
    show ?thesis
    proof (cases "index_tags mTags k = ''''")
      case True
      with lt Cons.IH[OF Cons.prems] show ?thesis by simp
    next
      case nonempty: False
      from lt have le: "length (ds @ [\<lparr>Dimension.Name = Some k, Value = Some (index_tags mTags k)\<rparr>]) \<le> MaxDimensions"
        by simp
      from lt have "MaxDimensions - length ds = Suc (MaxDimensions - Suc (length ds))"
        by simp
      with nonempty lt Cons.IH[OF le] show ?thesis by simp
    qed
  qed
qed

lemma BuildDimensions_take:
  "BuildDimensions mTags =
     take MaxDimensions
       ((case map_of mTags ''host'' of
           Some host \<Rightarrow> [\<lparr>Dimension.Name = Some ''host'', Value = Some host\<rparr>]
         | None \<Rightarrow> [])
        @ map (\<lambda>k. \<lparr>Dimension.Name = Some k, Value = Some (index_tags mTags k)\<rparr>)
              (filter (\<lambda>k. index_tags mTags k \<noteq> '''')
                      (sort (filter (\<lambda>k. k \<noteq> ''host'') (map fst mTags)))))"
  by (cases "map_of mTags ''host''")
     (simp_all add: BuildDimensions_def BuildDimensions_loop_take MaxDimensions_def)

lemma BuildDimensions_length: "length (BuildDimensions mTags) \<le> 10"
  by (simp add: BuildDimensions_take MaxDimensions_def)

text \<open>
  The order of the association list (the order in which \<open>range\<close> visits the tags) does
  not matter: two lists for the same map give the same dimensions.
\<close>

lemma BuildDimensions_range_order:
  assumes "distinct (map fst a)" "distinct (map fst b)" "set a = set b"
  shows "BuildDimensions a = BuildDimensions b"
proof -
  have m: "map_of a = map_of b"
    using assms by (simp add: map_of_inject_set)
  then have i: "index_tags a = index_tags b"
    by (simp add: index_tags_def fun_eq_iff)
  have "set (map fst a) = set (map fst b)"
    using assms(3) by simp
  then have "set (sort (filter (\<lambda>k. k \<noteq> ''host'') (map fst a)))
           = set (sort (filter (\<lambda>k. k \<noteq> ''host'') (map fst b)))"
    by simp
  moreover have "distinct (sort (filter (\<lambda>k. k \<noteq> ''host'') (map fst a)))"
    "distinct (sort (filter (\<lambda>k. k \<noteq> ''host'') (map fst b)))"
    using assms(1,2) by simp_all
  ultimately have "sort (filter (\<lambda>k. k \<noteq> ''host'') (map fst a))
                 = sort (filter (\<lambda>k. k \<noteq> ''host'') (map fst b))"
    by (intro sorted_distinct_set_unique) simp_all
  with m i show ?thesis
    by (simp add: BuildDimensions_take)
qed

lemma BuildDimensions_example:
  "BuildDimensions [(''host'', ''h1''), (''zone'', ''z1''), (''az'', ''a1'')] =
     [\<lparr>Dimension.Name = Some ''host'', Value = Some ''h1''\<rparr>,
      \<lparr>Dimension.Name = Some ''az'', Value = Some ''a1''\<rparr>,
      \<lparr>Dimension.Name = Some ''zone'', Value = Some ''z1''\<rparr>]"
  by (simp add: BuildDimensions_def MaxDimensions_def index_tags_def)

text \<open>
  Claim C4. The claim: the dimension list has at most 10 entries and no dimension with an
  empty value, and a \<open>host\<close> tag with an empty value does not appear. The bound holds
  (\<open>BuildDimensions_length\<close>), and the loop skips empty values. The host tag however is
  appended as soon as the key exists, without the test the loop makes: for the tags
  \<open>{host: ""}\<close> the result is the one dimension \<open>host\<close> with the empty value.
\<close>

theorem BuildDimensions_empty_host:
  "BuildDimensions [(''host'', '''')] = [\<lparr>Dimension.Name = Some ''host'', Value = Some ''''\<rparr>]"
  by (simp add: BuildDimensions_def)

text \<open>
  Claim C7. The claim: the list is the non-empty host tag first, then the other keys in
  ascending order without those with an empty value, stopping at 10. The order and the
  limit are as claimed (\<open>BuildDimensions_take\<close>, \<open>BuildDimensions_example\<close>); the host tag
  comes first also when its value is empty: for \<open>{host: "", zone: "z1", az: "a1"}\<close> the
  list is \<open>[host, az, zone]\<close>, where the claim gives \<open>[az, zone]\<close>.
\<close>

theorem BuildDimensions_empty_host_order:
  "BuildDimensions [(''host'', ''''), (''zone'', ''z1''), (''az'', ''a1'')] =
     [\<lparr>Dimension.Name = Some ''host'', Value = Some ''''\<rparr>,
      \<lparr>Dimension.Name = Some ''az'', Value = Some ''a1''\<rparr>,
      \<lparr>Dimension.Name = Some ''zone'', Value = Some ''z1''\<rparr>]"
  by (simp add: BuildDimensions_def MaxDimensions_def index_tags_def)

section \<open>Properties of \<open>statisticField\<close>\<close>

lemma statisticField_range_map:
  "statisticField_range f ks acc =
     acc @ map (independent_datum f)
             (filter (\<lambda>k. k \<noteq> statisticTypeNone \<and> values f k \<noteq> None) ks)"
proof (induction ks arbitrary: acc)
  case Nil
  show ?case by simp
next
  case (Cons k ks)
  show ?case
  proof (cases "values f k")
    case None
    with Cons.IH show ?thesis by simp
  next
    case (Some v)
    with Cons.IH show ?thesis
      by (cases k) (simp_all add: independent_datum_def kindname_def)
  qed
qed

lemma range_order_filter:
  assumes "range_order m ks"
  shows "filter (\<lambda>k. P k \<and> m k \<noteq> None) ks = filter P ks"
proof -
  have "\<And>k. k \<in> set ks \<Longrightarrow> m k \<noteq> None"
    using assms by (auto simp: range_order_def)
  then show ?thesis by (intro filter_cong) auto
qed

lemma hasAllFields_iff:
  "hasAllFields f \<longleftrightarrow>
     {statisticTypeMin, statisticTypeMax, statisticTypeSum, statisticTypeCount} \<subseteq> dom (values f)"
  by (auto simp: hasAllFields_def)

lemma kindname_inject:
  "kindname a = kindname b \<longleftrightarrow> a = b"
  by (cases a; cases b) (simp_all add: kindname_def)


lemma distinct_filter_eq:
  "distinct xs \<Longrightarrow> x \<in> set xs \<Longrightarrow> filter (\<lambda>j. j = x) xs = [x]"
proof (induction xs)
  case Nil
  then show ?case by simp
next
  case (Cons a xs)
  show ?case
  proof (cases "a = x")
    case True
    with Cons.prems have "x \<notin> set xs" by simp
    then have "filter (\<lambda>j. j = x) xs = []" by (auto simp: filter_empty_conv)
    with True show ?thesis by simp
  next
    case False
    with Cons show ?thesis by simp
  qed
qed

text \<open>
  What \<open>buildDatum\<close> yields for an arbitrary accumulator and every order in which \<open>range\<close>
  can visit its values: the statistic set when all four kinds are present, and otherwise
  one independent datum for each kind present other than \<open>statisticTypeNone\<close>.
\<close>

lemma statisticField_buildDatum_cases:
  assumes "range_order (values f) order"
  shows
    "(hasAllFields f \<longleftrightarrow>
        {statisticTypeMin, statisticTypeMax, statisticTypeSum, statisticTypeCount}
          \<subseteq> dom (values f))
     \<and> (hasAllFields f \<longrightarrow>
          (\<exists>d. statisticField_buildDatum f order = [d]
             \<and> MetricName d = Some (statisticField.metricName f @ ''_'' @ statisticField.fieldName f)
             \<and> Value d = None
             \<and> StatisticValues d =
                 Some \<lparr>Maximum = values f statisticTypeMax, Minimum = values f statisticTypeMin,
                       SampleCount = values f statisticTypeCount, Sum = values f statisticTypeSum\<rparr>))
     \<and> (\<not> hasAllFields f \<longrightarrow>
          map (\<lambda>d. (MetricName d, Value d, StatisticValues d)) (statisticField_buildDatum f order)
            = map (\<lambda>k. (Some (statisticField.metricName f @ ''_'' @ statisticField.fieldName f
                                 @ ''_'' @ kindname k), values f k, None))
                  (filter (\<lambda>k. k \<noteq> statisticTypeNone) order)
          \<and> (\<forall>k \<in> dom (values f) - {statisticTypeNone}.
                length (filter (\<lambda>d. MetricName d =
                           Some (statisticField.metricName f @ ''_'' @ statisticField.fieldName f
                                 @ ''_'' @ kindname k))
                        (statisticField_buildDatum f order)) = 1)
          \<and> length (statisticField_buildDatum f order)
              = card (dom (values f) - {statisticTypeNone}))"
proof (intro conjI impI)
  show "hasAllFields f \<longleftrightarrow>
        {statisticTypeMin, statisticTypeMax, statisticTypeSum, statisticTypeCount}
          \<subseteq> dom (values f)"
    by (rule hasAllFields_iff)
next
  assume all: "hasAllFields f"
  then have "values f statisticTypeMax \<noteq> None" "values f statisticTypeMin \<noteq> None"
    "values f statisticTypeCount \<noteq> None" "values f statisticTypeSum \<noteq> None"
    by (simp_all add: hasAllFields_def)
  then show "\<exists>d. statisticField_buildDatum f order = [d]
             \<and> MetricName d = Some (statisticField.metricName f @ ''_'' @ statisticField.fieldName f)
             \<and> Value d = None
             \<and> StatisticValues d =
                 Some \<lparr>Maximum = values f statisticTypeMax, Minimum = values f statisticTypeMin,
                       SampleCount = values f statisticTypeCount, Sum = values f statisticTypeSum\<rparr>"
    using all by (auto simp: statisticField_buildDatum_def index_values_def)
next
  assume part: "\<not> hasAllFields f"
  let ?ks = "filter (\<lambda>k. k \<noteq> statisticTypeNone) order"
  have out: "statisticField_buildDatum f order = map (independent_datum f) ?ks"
    using part range_order_filter[OF assms, of "\<lambda>k. k \<noteq> statisticTypeNone"]
    by (simp add: statisticField_buildDatum_def statisticField_range_map)
  show "map (\<lambda>d. (MetricName d, Value d, StatisticValues d)) (statisticField_buildDatum f order)
            = map (\<lambda>k. (Some (statisticField.metricName f @ ''_'' @ statisticField.fieldName f
                                 @ ''_'' @ kindname k), values f k, None)) ?ks"
    unfolding out by (simp add: independent_datum_def)
  have ks: "distinct ?ks" "set ?ks = dom (values f) - {statisticTypeNone}"
    using assms by (auto simp: range_order_def)
  show "length (statisticField_buildDatum f order) = card (dom (values f) - {statisticTypeNone})"
    unfolding out using ks by (simp add: distinct_card[symmetric])
  show "\<forall>k \<in> dom (values f) - {statisticTypeNone}.
                length (filter (\<lambda>d. MetricName d =
                           Some (statisticField.metricName f @ ''_'' @ statisticField.fieldName f
                                 @ ''_'' @ kindname k))
                        (statisticField_buildDatum f order)) = 1"
  proof
    fix k assume "k \<in> dom (values f) - {statisticTypeNone}"
    then have k: "k \<in> set ?ks" using ks(2) by simp
    have "filter (\<lambda>d. MetricName d =
                           Some (statisticField.metricName f @ ''_'' @ statisticField.fieldName f
                                 @ ''_'' @ kindname k)) (map (independent_datum f) ?ks)
          = map (independent_datum f) (filter (\<lambda>j. j = k) ?ks)"
      by (simp add: filter_map comp_def independent_datum_def kindname_inject)
    moreover have "length (filter (\<lambda>j. j = k) ?ks) = 1"
      using distinct_filter_eq[OF ks(1) k] by simp
    ultimately show "length (filter (\<lambda>d. MetricName d =
                           Some (statisticField.metricName f @ ''_'' @ statisticField.fieldName f
                                 @ ''_'' @ kindname k))
                        (statisticField_buildDatum f order)) = 1"
      unfolding out by simp
  qed
qed

section \<open>Properties of \<open>BuildMetricDatum\<close>\<close>

text \<open>
  Each pass of the first loop keeps the invariant: a raw accumulator is no statistic set;
  a statistic set is created under its base name, with the name of the metric, for a kind
  that the guard has found different from \<open>statisticTypeNone\<close>; and \<open>addValue\<close> stores the
  converted value of the field under its kind.
\<close>

lemma accumulated_mono:
  "accumulated point S fs \<Longrightarrow> S \<subseteq> T \<Longrightarrow> accumulated point T fs"
  unfolding accumulated_def by blast

lemma accumulated_raw:
  "accumulated point S fs \<Longrightarrow> accumulated point S (fs(k \<mapsto> ValueField g))"
  unfolding accumulated_def by simp

lemma accumulated_new:
  assumes "accumulated point S fs" "sType \<noteq> statisticTypeNone" "(name, gv) \<in> S"
    "getStatisticType name = (sType, fName)" "convert gv = (val, True)"
  shows "accumulated point S (fs(fName \<mapsto> StatisticField
           \<lparr>statisticField.metricName = Metric.Name point, fieldName = fName,
             tags = Tags point, values = [sType \<mapsto> val],
             timestamp = Time point, storageResolution = storageRes\<rparr>))"
  using assms unfolding accumulated_def by (auto split: if_splits)

lemma accumulated_add:
  assumes "accumulated point S fs" "sType \<noteq> statisticTypeNone" "(name, gv) \<in> S"
    "getStatisticType name = (sType, fName)" "convert gv = (val, True)" "fs fName = Some g"
  shows "accumulated point S (fs(fName \<mapsto> addValue g sType val))"
proof (cases g)
  case (ValueField h)
  with assms(1) show ?thesis
    by (simp add: accumulated_raw)
next
  case (StatisticField h)
  from assms(1,6) StatisticField have h:
    "statisticField.metricName h = Metric.Name point" "statisticField.fieldName h = fName"
    "\<And>kind v. values h kind = Some v \<Longrightarrow>
        kind \<noteq> statisticTypeNone
        \<and> (\<exists>name gv. (name, gv) \<in> S \<and> getStatisticType name = (kind, fName)
               \<and> convert gv = (v, True))"
    unfolding accumulated_def by blast+
  have "accumulated point S (fs(fName \<mapsto> StatisticField (h\<lparr>values := (values h)(sType \<mapsto> val)\<rparr>)))"
    unfolding accumulated_def
  proof (intro allI impI)
    fix k f
    assume kf: "(fs(fName \<mapsto> StatisticField (h\<lparr>values := (values h)(sType \<mapsto> val)\<rparr>))) k
                 = Some (StatisticField f)"
    show "statisticField.metricName f = Metric.Name point
        \<and> statisticField.fieldName f = k
        \<and> (\<forall>kind v. values f kind = Some v \<longrightarrow>
              kind \<noteq> statisticTypeNone
              \<and> (\<exists>name gv. (name, gv) \<in> S \<and> getStatisticType name = (kind, k)
                     \<and> convert gv = (v, True)))"
    proof (cases "k = fName")
      case False
      with kf assms(1) show ?thesis
        unfolding accumulated_def by simp
    next
      case True
      with kf have f: "f = h\<lparr>values := (values h)(sType \<mapsto> val)\<rparr>" by simp
      have "kind \<noteq> statisticTypeNone
              \<and> (\<exists>name gv. (name, gv) \<in> S \<and> getStatisticType name = (kind, fName)
                     \<and> convert gv = (v, True))"
        if "values f kind = Some v" for kind v
      proof (cases "kind = sType")
        case True
        with that f have "v = val" by simp
        with True assms(2-5) show ?thesis by blast
      next
        case False
        with that f have "values h kind = Some v" by simp
        then show ?thesis by (rule h(3))
      qed
      with True f h(1,2) show ?thesis by simp
    qed
  qed
  with StatisticField assms(2) show ?thesis
    by (simp add: statisticField_addValue_def)
qed

lemma accumulated_field:
  assumes "accumulated point S fs"
  shows "accumulated point (insert kv S)
           (BuildMetricDatum_field buildStatistic storageRes point fs kv)"
proof -
  obtain val ok where cv: "convert (snd kv) = (val, ok)"
    by (cases "convert (snd kv)")
  obtain sType fName where st: "getStatisticType (fst kv) = (sType, fName)"
    by (cases "getStatisticType (fst kv)")
  from assms have acc: "accumulated point (insert kv S) fs"
    by (rule accumulated_mono) auto
  have kv: "(fst kv, snd kv) \<in> insert kv S" by simp
  show ?thesis
  proof (cases "ok")
    case False
    with acc cv show ?thesis
      by (simp add: BuildMetricDatum_field_def Let_def)
  next
    case ok: True
    show ?thesis
    proof (cases "\<not> buildStatistic \<or> sType = statisticTypeNone")
      case True
      with cv st ok accumulated_raw[OF acc] show ?thesis
        by (simp add: BuildMetricDatum_field_def Let_def)
    next
      case stat: False
      then have ne: "sType \<noteq> statisticTypeNone" by simp
      from cv ok have cv': "convert (snd kv) = (val, True)" by simp
      show ?thesis
      proof (cases "fs fName")
        case None
        with stat cv st ok accumulated_new[OF acc ne kv st cv'] show ?thesis
          by (simp add: BuildMetricDatum_field_def Let_def)
      next
        case (Some g)
        with stat cv st ok accumulated_add[OF acc ne kv st cv' Some] show ?thesis
          by (simp add: BuildMetricDatum_field_def Let_def)
      qed
    qed
  qed
qed

lemma accumulated_foldl:
  "accumulated point S fs \<Longrightarrow>
   accumulated point (S \<union> set kvs)
     (foldl (BuildMetricDatum_field buildStatistic storageRes point) fs kvs)"
proof (induction kvs arbitrary: S fs)
  case Nil
  then show ?case by simp
next
  case (Cons kv kvs)
  from Cons.IH[OF accumulated_field[OF Cons.prems, of kv buildStatistic storageRes]]
  show ?case by simp
qed

lemma accumulated_fields:
  "accumulated point (set (Fields point))
     (BuildMetricDatum_fields buildStatistic highResolutionMetrics point)"
proof -
  have "accumulated point {} Map.empty"
    by (simp add: accumulated_def)
  from accumulated_foldl[OF this, of "Fields point"] show ?thesis
    by (simp add: BuildMetricDatum_fields_def Let_def)
qed


text \<open>
  The datums of a base field name \<open>k\<close> whose accumulator is a statistic set \<open>f\<close>, for every
  order in which \<open>range\<close> can visit its values: each kind held by \<open>f\<close> is the converted
  value of a field of the metric with that kind and the base name \<open>k\<close>; with all four
  kinds \<open>buildDatum\<close> yields one datum, named \<open><metric>_<field>\<close>, with the statistic set;
  otherwise one datum for each kind held, named \<open><metric>_<field>_<kindname>\<close>, with the
  value of the kind as its scalar.
\<close>

lemma statisticField_accumulator_datums:
  assumes "BuildMetricDatum_fields True highResolutionMetrics point k = Some (StatisticField f)"
    and "range_order (values f) order"
  shows
    "(\<forall>kind \<in> dom (values f).
        \<exists>name gv. (name, gv) \<in> set (Fields point) \<and> getStatisticType name = (kind, k)
                  \<and> convert gv = (the (values f kind), True))
     \<and> (hasAllFields f \<longleftrightarrow>
          {statisticTypeMin, statisticTypeMax, statisticTypeSum, statisticTypeCount}
            \<subseteq> dom (values f))
     \<and> (hasAllFields f \<longrightarrow>
          (\<exists>d. buildDatum (StatisticField f) order = [d]
             \<and> MetricName d = Some (Metric.Name point @ ''_'' @ k)
             \<and> Value d = None
             \<and> StatisticValues d =
                 Some \<lparr>Maximum = values f statisticTypeMax, Minimum = values f statisticTypeMin,
                       SampleCount = values f statisticTypeCount, Sum = values f statisticTypeSum\<rparr>))
     \<and> (\<not> hasAllFields f \<longrightarrow>
          map (\<lambda>d. (MetricName d, Value d, StatisticValues d)) (buildDatum (StatisticField f) order)
            = map (\<lambda>kind. (Some (Metric.Name point @ ''_'' @ k @ ''_'' @ kindname kind),
                            values f kind, None)) order
          \<and> (\<forall>kind \<in> dom (values f).
                length (filter (\<lambda>d. MetricName d =
                           Some (Metric.Name point @ ''_'' @ k @ ''_'' @ kindname kind))
                        (buildDatum (StatisticField f) order)) = 1)
          \<and> length (buildDatum (StatisticField f) order) = card (dom (values f)))"
proof -
  from accumulated_fields[of point True highResolutionMetrics] assms(1)
  have names: "statisticField.metricName f = Metric.Name point" "statisticField.fieldName f = k"
    and prov: "\<And>kind v. values f kind = Some v \<Longrightarrow>
        kind \<noteq> statisticTypeNone
        \<and> (\<exists>name gv. (name, gv) \<in> set (Fields point) \<and> getStatisticType name = (kind, k)
               \<and> convert gv = (v, True))"
    unfolding accumulated_def by blast+
  have none: "statisticTypeNone \<notin> dom (values f)"
    using prov by auto
  then have dom: "dom (values f) - {statisticTypeNone} = dom (values f)"
    by simp
  from none assms(2) have "statisticTypeNone \<notin> set order"
    by (simp add: range_order_def)
  then have order: "filter (\<lambda>kind. kind \<noteq> statisticTypeNone) order = order"
    by (auto simp: filter_id_conv)
  have "\<forall>kind \<in> dom (values f).
        \<exists>name gv. (name, gv) \<in> set (Fields point) \<and> getStatisticType name = (kind, k)
                  \<and> convert gv = (the (values f kind), True)"
    using prov by fastforce
  with statisticField_buildDatum_cases[OF assms(2)] show ?thesis
    unfolding names dom order by simp
qed

text \<open>
  Claim C10. Every statistic-set accumulator that \<open>BuildMetricDatum\<close> holds in its map
  after the first loop has no value for the kind \<open>statisticTypeNone\<close>. So a \<open>range\<close> over
  its values never meets that kind, the \<open>default\<close> case of the \<open>switch\<close> is never taken:
  the loop appends a datum in every pass, and each of them is named with one of the four
  suffixes.
\<close>

theorem reachable_statisticField_no_None_kind:
  assumes "BuildMetricDatum_fields buildStatistic highResolutionMetrics point k
             = Some (StatisticField f)"
  shows "statisticTypeNone \<notin> dom (values f)
         \<and> (\<forall>order. range_order (values f) order \<longrightarrow>
               statisticTypeNone \<notin> set order
               \<and> statisticField_range f order [] = map (independent_datum f) order
               \<and> (\<forall>d \<in> set (statisticField_range f order []).
                     \<exists>s \<in> {''min'', ''max'', ''sum'', ''count''}.
                       MetricName d = Some (statisticField.metricName f @ ''_''
                                            @ statisticField.fieldName f @ ''_'' @ s)))"
proof -
  from accumulated_fields[of point buildStatistic highResolutionMetrics] assms
  have "\<And>v. values f statisticTypeNone = Some v \<Longrightarrow> statisticTypeNone \<noteq> statisticTypeNone"
    unfolding accumulated_def by blast
  then have none: "values f statisticTypeNone = None"
    by (cases "values f statisticTypeNone") auto
  then have dom: "statisticTypeNone \<notin> dom (values f)"
    by (simp add: dom_def)
  have loop: "statisticTypeNone \<notin> set order
               \<and> statisticField_range f order [] = map (independent_datum f) order
               \<and> (\<forall>d \<in> set (statisticField_range f order []).
                     \<exists>s \<in> {''min'', ''max'', ''sum'', ''count''}.
                       MetricName d = Some (statisticField.metricName f @ ''_''
                                            @ statisticField.fieldName f @ ''_'' @ s))"
    if ro: "range_order (values f) order" for order
  proof -
    from ro dom have notin: "statisticTypeNone \<notin> set order"
      by (simp add: range_order_def)
    then have "filter (\<lambda>k. k \<noteq> statisticTypeNone) order = order"
      by (auto simp: filter_id_conv)
    with range_order_filter[OF ro, of "\<lambda>k. k \<noteq> statisticTypeNone"]
    have eq: "statisticField_range f order [] = map (independent_datum f) order"
      by (simp add: statisticField_range_map)
    have "\<exists>s \<in> {''min'', ''max'', ''sum'', ''count''}.
            MetricName (independent_datum f j) = Some (statisticField.metricName f @ ''_''
                                            @ statisticField.fieldName f @ ''_'' @ s)"
      if "j \<in> set order" for j
    proof -
      from that notin have "j \<noteq> statisticTypeNone" by auto
      then show ?thesis
        by (cases j) (simp_all add: independent_datum_def kindname_def)
    qed
    with notin eq show ?thesis by auto
  qed
  from dom loop show ?thesis by blast
qed

text \<open>
  The hypothesis of C10 at a metric with the fields \<open>x_min\<close> and \<open>x_max\<close>: the accumulator
  under \<open>x\<close> holds the two kinds, and the loop names a datum for each.
\<close>

theorem reachable_statisticField_no_None_kind_witness:
  "BuildMetricDatum_fields True False
     \<lparr>Metric.Name = ''m'', Tags = [],
       Fields = [(''x_min'', GoFloat64 (Finite 2)), (''x_max'', GoFloat64 (Finite 5))],
       Time = UnixTime 0\<rparr> ''x''
     = Some (StatisticField
         \<lparr>statisticField.metricName = ''m'', fieldName = ''x'', tags = [],
           values = [statisticTypeMin \<mapsto> Finite 2, statisticTypeMax \<mapsto> Finite 5],
           timestamp = UnixTime 0, storageResolution = 60\<rparr>)
   \<and> range_order [statisticTypeMin \<mapsto> Finite 2, statisticTypeMax \<mapsto> Finite 5]
        [statisticTypeMax, statisticTypeMin]
   \<and> map MetricName
        (statisticField_range
          \<lparr>statisticField.metricName = ''m'', fieldName = ''x'', tags = [],
            values = [statisticTypeMin \<mapsto> Finite 2, statisticTypeMax \<mapsto> Finite 5],
            timestamp = UnixTime 0, storageResolution = 60\<rparr>
          [statisticTypeMax, statisticTypeMin] [])
      = [Some ''m_x_max'', Some ''m_x_min'']"
proof -
  let ?f = "\<lparr>statisticField.metricName = ''m'', fieldName = ''x'', tags = [],
           values = [statisticTypeMin \<mapsto> Finite 2, statisticTypeMax \<mapsto> Finite 5],
           timestamp = UnixTime 0, storageResolution = 60\<rparr>"
  have h: "BuildMetricDatum_fields True False
     \<lparr>Metric.Name = ''m'', Tags = [],
       Fields = [(''x_min'', GoFloat64 (Finite 2)), (''x_max'', GoFloat64 (Finite 5))],
       Time = UnixTime 0\<rparr> ''x'' = Some (StatisticField ?f)"
    by (simp add: BuildMetricDatum_fields_def BuildMetricDatum_field_def
        convert_def IsNaN_def IsInf_def lowerBound_def upperBound_def
        getStatisticType_def HasSuffix_def TrimSuffix_def statisticField_addValue_def Let_def)
  have ro: "range_order [statisticTypeMin \<mapsto> Finite 2, statisticTypeMax \<mapsto> Finite 5]
        [statisticTypeMax, statisticTypeMin]"
    by (auto simp: range_order_def)
  have ro': "range_order (values ?f) [statisticTypeMax, statisticTypeMin]"
    using ro by simp
  from reachable_statisticField_no_None_kind[OF h] ro'
  have "statisticField_range ?f [statisticTypeMax, statisticTypeMin] []
        = map (independent_datum ?f) [statisticTypeMax, statisticTypeMin]"
    by blast
  then have "map MetricName (statisticField_range ?f [statisticTypeMax, statisticTypeMin] [])
      = [Some ''m_x_max'', Some ''m_x_min'']"
    by (simp add: independent_datum_def kindname_def)
  with h ro show ?thesis by (intro conjI)
qed

text \<open>Evaluation of \<open>BuildMetricDatum\<close> at concrete metrics unfolds these definitions.\<close>

lemmas eval_defs =
  BuildMetricDatum_def BuildMetricDatum_fields_def BuildMetricDatum_field_def
  convert_def IsNaN_def IsInf_def lowerBound_def upperBound_def
  getStatisticType_def HasSuffix_def TrimSuffix_def
  valueField_buildDatum_def valueField_addValue_def
  statisticField_buildDatum_def statisticField_addValue_def hasAllFields_def
  BuildDimensions_def index_tags_def MaxDimensions_def Let_def

text \<open>
  The datums of the loop for an incomplete statistic set are built without a storage
  resolution, whatever the accumulator holds.
\<close>

lemma statisticField_range_resolution:
  "d \<in> set (statisticField_range f ks []) \<Longrightarrow> StorageResolution d = None"
  by (auto simp: statisticField_range_map independent_datum_def)

text \<open>
  Claim C2. The claim: every datum of a metric carries the storage resolution of the
  metric, the independent datums of an incomplete statistic set included. The raw datum
  and the datum with a full statistic set are built with \<open>StorageResolution\<close> set from the
  accumulator; the independent datums are built without it. For the metric \<open>m\<close> with the
  one field \<open>x_min = 1.0\<close>, with statistics and high resolution enabled, the one datum
  \<open>m_x_min\<close> has no storage resolution (\<open>nil\<close>), where the claim gives \<open>1\<close>. The map
  \<open>fields\<close> has the one key \<open>x\<close> and its accumulator the one kind, so the two orders are
  the only ones. The raw field \<open>x\<close> and the four fields of a full statistic set give a
  datum with the storage resolution \<open>1\<close>.
\<close>

theorem BuildMetricDatum_independent_datum_resolution:
  "BuildMetricDatum True True
     \<lparr>Metric.Name = ''m'', Tags = [], Fields = [(''x_min'', GoFloat64 (Finite 1))], Time = UnixTime 0\<rparr>
     [''x''] (\<lambda>k. [statisticTypeMin])
   = [\<lparr>MetricName = Some ''m_x_min'', Dimensions = [], Timestamp = Some (UnixTime 0),
        Value = Some (Finite 1), StatisticValues = None, StorageResolution = None\<rparr>]
   \<and> BuildMetricDatum True True
     \<lparr>Metric.Name = ''m'', Tags = [], Fields = [(''x'', GoFloat64 (Finite 1))], Time = UnixTime 0\<rparr>
     [''x''] (\<lambda>k. [])
   = [\<lparr>MetricName = Some ''m_x'', Dimensions = [], Timestamp = Some (UnixTime 0),
        Value = Some (Finite 1), StatisticValues = None, StorageResolution = Some 1\<rparr>]
   \<and> BuildMetricDatum True True
     \<lparr>Metric.Name = ''m'', Tags = [],
       Fields = [(''x_min'', GoFloat64 (Finite 1)), (''x_max'', GoFloat64 (Finite 2)),
                 (''x_sum'', GoFloat64 (Finite 3)), (''x_count'', GoFloat64 (Finite 2))],
       Time = UnixTime 0\<rparr>
     [''x''] (\<lambda>k. [statisticTypeMax, statisticTypeMin, statisticTypeSum, statisticTypeCount])
   = [\<lparr>MetricName = Some ''m_x'', Dimensions = [], Timestamp = Some (UnixTime 0),
        Value = None,
        StatisticValues = Some \<lparr>Maximum = Some (Finite 2), Minimum = Some (Finite 1),
                                 SampleCount = Some (Finite 2), Sum = Some (Finite 3)\<rparr>,
        StorageResolution = Some 1\<rparr>]"
  by (simp add: eval_defs index_values_def)

text \<open>
  A field without a statistic suffix whose value converts owns its key in the map
  \<open>fields\<close>, whatever the order of the fields: its raw accumulator replaces a statistic set
  stored under the key before, and \<open>addValue\<close> on the raw accumulator ignores every
  statistic kind that comes after.
\<close>

lemma raw_accumulator_step:
  assumes "fs x = Some (ValueField g)" "fst kv \<noteq> x"
  shows "BuildMetricDatum_field True storageRes point fs kv x = Some (ValueField g)"
proof -
  obtain val ok where cv: "convert (snd kv) = (val, ok)"
    by (cases "convert (snd kv)")
  obtain sType fName where st: "getStatisticType (fst kv) = (sType, fName)"
    by (cases "getStatisticType (fst kv)")
  show ?thesis
  proof (cases "fName = x")
    case True
    with assms cv st show ?thesis
      by (simp add: BuildMetricDatum_field_def Let_def valueField_addValue_def)
  next
    case False
    with assms cv st show ?thesis
      by (simp add: BuildMetricDatum_field_def Let_def split: option.splits)
  qed
qed

lemma raw_accumulator_stays:
  assumes "fs x = Some (ValueField g)" "x \<notin> fst ` set kvs"
  shows "foldl (BuildMetricDatum_field True storageRes point) fs kvs x = Some (ValueField g)"
  using assms
proof (induction kvs arbitrary: fs)
  case Nil
  then show ?case by simp
next
  case (Cons kv kvs)
  from Cons.prems have "BuildMetricDatum_field True storageRes point fs kv x = Some (ValueField g)"
    by (intro raw_accumulator_step) auto
  moreover from Cons.prems have "x \<notin> fst ` set kvs" by simp
  ultimately show ?case
    using Cons.IH by simp
qed

lemma raw_field_wins:
  assumes "(x, v) \<in> set kvs" "distinct (map fst kvs)" "convert v = (val, True)"
    "getStatisticType x = (statisticTypeNone, x)"
  shows "foldl (BuildMetricDatum_field True storageRes point) fs kvs x =
           Some (ValueField \<lparr>metricName = Metric.Name point, fieldName = x, tags = Tags point,
                              value = val, timestamp = Time point,
                              storageResolution = storageRes\<rparr>)"
  using assms(1,2)
proof (induction kvs arbitrary: fs)
  case Nil
  then show ?case by simp
next
  case (Cons kv kvs)
  show ?case
  proof (cases "kv = (x, v)")
    case True
    with assms(3,4) have "BuildMetricDatum_field True storageRes point fs kv x =
           Some (ValueField \<lparr>metricName = Metric.Name point, fieldName = x, tags = Tags point,
                              value = val, timestamp = Time point,
                              storageResolution = storageRes\<rparr>)"
      by (simp add: BuildMetricDatum_field_def Let_def)
    moreover from True Cons.prems(2) have "x \<notin> fst ` set kvs" by simp
    ultimately show ?thesis
      using raw_accumulator_stays by simp
  next
    case False
    with Cons.prems have "(x, v) \<in> set kvs" "distinct (map fst kvs)" by simp_all
    then show ?thesis
      using Cons.IH by simp
  qed
qed

lemma raw_field_hides_statistics:
  assumes "(x, v) \<in> set (Fields point)" "distinct (map fst (Fields point))"
    "convert v = (val, True)" "getStatisticType x = (statisticTypeNone, x)"
  shows "BuildMetricDatum_fields True highResolutionMetrics point x =
           Some (ValueField \<lparr>metricName = Metric.Name point, fieldName = x, tags = Tags point,
                              value = val, timestamp = Time point,
                              storageResolution = (if highResolutionMetrics then 1 else 60)\<rparr>)"
  unfolding BuildMetricDatum_fields_def Let_def
  by (rule raw_field_wins[OF assms])

text \<open>
  Claim C3. The claim: raw accumulators are keyed by the field name, statistic sets by
  the base name, independently, so that a metric with the fields \<open>x\<close> and \<open>x_min\<close> yields
  the raw datum of \<open>x\<close> and the datum of \<open>x_min\<close> in every order of the fields. Both
  kinds of accumulator live in the one map \<open>fields\<close>, and here both under the key \<open>x\<close>.
  When \<open>x\<close> comes first, \<open>addValue\<close> on the raw accumulator ignores the kind
  \<open>statisticTypeMin\<close>; when \<open>x_min\<close> comes first, the raw accumulator replaces the
  statistic set. In both orders the map ends with the one key \<open>x\<close> and the metric yields
  the raw datum \<open>m_x\<close> alone, for every order of the values.
\<close>

theorem BuildMetricDatum_key_collision:
  "dom (BuildMetricDatum_fields True False
          \<lparr>Metric.Name = ''m'', Tags = [],
            Fields = [(''x'', GoFloat64 (Finite 1)), (''x_min'', GoFloat64 (Finite 2))],
            Time = UnixTime 0\<rparr>) = {''x''}
   \<and> BuildMetricDatum True False
       \<lparr>Metric.Name = ''m'', Tags = [],
         Fields = [(''x'', GoFloat64 (Finite 1)), (''x_min'', GoFloat64 (Finite 2))],
         Time = UnixTime 0\<rparr>
       [''x''] valuesOrder
     = [\<lparr>MetricName = Some ''m_x'', Dimensions = [], Timestamp = Some (UnixTime 0),
          Value = Some (Finite 1), StatisticValues = None, StorageResolution = Some 60\<rparr>]
   \<and> dom (BuildMetricDatum_fields True False
          \<lparr>Metric.Name = ''m'', Tags = [],
            Fields = [(''x_min'', GoFloat64 (Finite 2)), (''x'', GoFloat64 (Finite 1))],
            Time = UnixTime 0\<rparr>) = {''x''}
   \<and> BuildMetricDatum True False
       \<lparr>Metric.Name = ''m'', Tags = [],
         Fields = [(''x_min'', GoFloat64 (Finite 2)), (''x'', GoFloat64 (Finite 1))],
         Time = UnixTime 0\<rparr>
       [''x''] valuesOrder
     = [\<lparr>MetricName = Some ''m_x'', Dimensions = [], Timestamp = Some (UnixTime 0),
          Value = Some (Finite 1), StatisticValues = None, StorageResolution = Some 60\<rparr>]"
  by (simp add: eval_defs)

text \<open>
  Claim C1. The claim: with aggregation enabled, a statistic-set datum \<open><metric>_<field>\<close>
  is emitted for a base field name exactly when all four kinds were observed for it in
  the metric, and otherwise each observed kind yields its own datum. For a base name
  whose accumulator is a statistic set this is what \<open>buildDatum\<close> does
  (\<open>statisticField_accumulator_datums\<close>). A plain field of the same name however takes the
  key of the base name in the map \<open>fields\<close> (\<open>raw_field_hides_statistics\<close>), as under C3.
  For the metric \<open>m\<close> with the fields \<open>x\<close>, \<open>x_min\<close>, \<open>x_max\<close>, \<open>x_sum\<close> and \<open>x_count\<close>, all
  convertible, the four kinds are observed for the base name \<open>x\<close>; with \<open>x\<close> visited first,
  in the middle or last, the map ends with the one key \<open>x\<close> and the metric yields the raw
  datum \<open>m_x\<close> alone: no statistic set, and no datum for any of the four kinds. Without
  the field \<open>x\<close> the same four fields yield the statistic set.
\<close>

theorem BuildMetricDatum_collision_hides_statistic_set:
  "dom (BuildMetricDatum_fields True False
          \<lparr>Metric.Name = ''m'', Tags = [],
            Fields = [(''x'', GoFloat64 (Finite 1)), (''x_min'', GoFloat64 (Finite 1)),
                      (''x_max'', GoFloat64 (Finite 3)), (''x_sum'', GoFloat64 (Finite 4)),
                      (''x_count'', GoFloat64 (Finite 2))],
            Time = UnixTime 0\<rparr>) = {''x''}
   \<and> BuildMetricDatum True False
       \<lparr>Metric.Name = ''m'', Tags = [],
         Fields = [(''x'', GoFloat64 (Finite 1)), (''x_min'', GoFloat64 (Finite 1)),
                   (''x_max'', GoFloat64 (Finite 3)), (''x_sum'', GoFloat64 (Finite 4)),
                   (''x_count'', GoFloat64 (Finite 2))],
         Time = UnixTime 0\<rparr>
       [''x''] valuesOrder
     = [\<lparr>MetricName = Some ''m_x'', Dimensions = [], Timestamp = Some (UnixTime 0),
          Value = Some (Finite 1), StatisticValues = None, StorageResolution = Some 60\<rparr>]
   \<and> dom (BuildMetricDatum_fields True False
          \<lparr>Metric.Name = ''m'', Tags = [],
            Fields = [(''x_min'', GoFloat64 (Finite 1)), (''x_max'', GoFloat64 (Finite 3)),
                      (''x'', GoFloat64 (Finite 1)), (''x_sum'', GoFloat64 (Finite 4)),
                      (''x_count'', GoFloat64 (Finite 2))],
            Time = UnixTime 0\<rparr>) = {''x''}
   \<and> BuildMetricDatum True False
       \<lparr>Metric.Name = ''m'', Tags = [],
         Fields = [(''x_min'', GoFloat64 (Finite 1)), (''x_max'', GoFloat64 (Finite 3)),
                   (''x'', GoFloat64 (Finite 1)), (''x_sum'', GoFloat64 (Finite 4)),
                   (''x_count'', GoFloat64 (Finite 2))],
         Time = UnixTime 0\<rparr>
       [''x''] valuesOrder
     = [\<lparr>MetricName = Some ''m_x'', Dimensions = [], Timestamp = Some (UnixTime 0),
          Value = Some (Finite 1), StatisticValues = None, StorageResolution = Some 60\<rparr>]
   \<and> dom (BuildMetricDatum_fields True False
          \<lparr>Metric.Name = ''m'', Tags = [],
            Fields = [(''x_min'', GoFloat64 (Finite 1)), (''x_max'', GoFloat64 (Finite 3)),
                      (''x_sum'', GoFloat64 (Finite 4)), (''x_count'', GoFloat64 (Finite 2)),
                      (''x'', GoFloat64 (Finite 1))],
            Time = UnixTime 0\<rparr>) = {''x''}
   \<and> BuildMetricDatum True False
       \<lparr>Metric.Name = ''m'', Tags = [],
         Fields = [(''x_min'', GoFloat64 (Finite 1)), (''x_max'', GoFloat64 (Finite 3)),
                   (''x_sum'', GoFloat64 (Finite 4)), (''x_count'', GoFloat64 (Finite 2)),
                   (''x'', GoFloat64 (Finite 1))],
         Time = UnixTime 0\<rparr>
       [''x''] valuesOrder
     = [\<lparr>MetricName = Some ''m_x'', Dimensions = [], Timestamp = Some (UnixTime 0),
          Value = Some (Finite 1), StatisticValues = None, StorageResolution = Some 60\<rparr>]
   \<and> BuildMetricDatum True False
       \<lparr>Metric.Name = ''m'', Tags = [],
         Fields = [(''x_min'', GoFloat64 (Finite 1)), (''x_max'', GoFloat64 (Finite 3)),
                   (''x_sum'', GoFloat64 (Finite 4)), (''x_count'', GoFloat64 (Finite 2))],
         Time = UnixTime 0\<rparr>
       [''x''] (\<lambda>k. [statisticTypeMax, statisticTypeMin, statisticTypeSum, statisticTypeCount])
     = [\<lparr>MetricName = Some ''m_x'', Dimensions = [], Timestamp = Some (UnixTime 0),
          Value = None,
          StatisticValues = Some \<lparr>Maximum = Some (Finite 3), Minimum = Some (Finite 1),
                                   SampleCount = Some (Finite 2), Sum = Some (Finite 4)\<rparr>,
          StorageResolution = Some 60\<rparr>]"
  by (simp add: eval_defs index_values_def)

section \<open>Properties of \<open>Write\<close>\<close>

lemma response_0: "response put c s (p # ps) 0 = fst (put s (request c p))"
  by (simp add: response_def svc_after_def)

lemma response_Suc:
  "response put c s (p # ps) (Suc i) = response put c (snd (put s (request c p))) ps i"
  by (simp add: response_def svc_after_def)

lemma WriteToCloudWatch_None:
  assumes "fst (put (svc w) (request c p)) = None"
  shows "WriteToCloudWatch put c w p
         = (None, w\<lparr>svc := snd (put (svc w) (request c p)), requests := requests w @ [request c p]\<rparr>)"
  using assms
  by (cases "put (svc w) (request c p)") (simp add: WriteToCloudWatch_def request_def)

lemma WriteToCloudWatch_Some:
  assumes "fst (put (svc w) (request c p)) = Some e"
  shows "\<exists>w'. WriteToCloudWatch put c w p = (Some e, w')
              \<and> requests w' = requests w @ [request c p]"
  using assms
  by (cases "put (svc w) (request c p)") (simp add: WriteToCloudWatch_def request_def)

lemma Write_partitions_all:
  assumes "\<forall>i < length parts. response put c (svc w) parts i = None"
  shows "\<exists>w'. Write_partitions put c w parts = (None, w')
              \<and> requests w' = requests w @ map (request c) parts"
  using assms
proof (induction parts arbitrary: w)
  case Nil
  show ?case by simp
next
  case (Cons p ps)
  from Cons.prems have first: "fst (put (svc w) (request c p)) = None"
    using response_0[of put c "svc w" p ps] by auto
  let ?w = "w\<lparr>svc := snd (put (svc w) (request c p)), requests := requests w @ [request c p]\<rparr>"
  have "\<forall>i < length ps. response put c (svc ?w) ps i = None"
    using Cons.prems response_Suc[of put c "svc w" p ps] by auto
  from Cons.IH[OF this] obtain w' where
    "Write_partitions put c ?w ps = (None, w')" "requests w' = requests ?w @ map (request c) ps"
    by blast
  then show ?case
    using WriteToCloudWatch_None[where put=put and w=w and c=c and p=p, OF first] by simp
qed

lemma Write_partitions_first_error:
  assumes "n < length parts" "response put c (svc w) parts n = Some e"
    "\<forall>i < n. response put c (svc w) parts i = None"
  shows "\<exists>w'. Write_partitions put c w parts = (Some e, w')
              \<and> requests w' = requests w @ map (request c) (take (Suc n) parts)"
  using assms
proof (induction parts arbitrary: w n)
  case Nil
  then show ?case by simp
next
  case (Cons p ps)
  show ?case
  proof (cases n)
    case 0
    with Cons.prems have "fst (put (svc w) (request c p)) = Some e"
      by (simp add: response_0)
    from WriteToCloudWatch_Some[where put=put and w=w and c=c and p=p, OF this] 0 show ?thesis by auto
  next
    case (Suc m)
    from Cons.prems Suc have first: "fst (put (svc w) (request c p)) = None"
      using response_0[of put c "svc w" p ps] by auto
    let ?w = "w\<lparr>svc := snd (put (svc w) (request c p)), requests := requests w @ [request c p]\<rparr>"
    have a: "m < length ps" using Cons.prems Suc by simp
    have b: "response put c (svc ?w) ps m = Some e"
      using Cons.prems(2) Suc by (simp add: response_Suc)
    have c: "\<forall>i < m. response put c (svc ?w) ps i = None"
      using Cons.prems(3) Suc response_Suc[of put c "svc w" p ps] by auto
    from Cons.IH[OF a b c] obtain w' where
      "Write_partitions put c ?w ps = (Some e, w')"
      "requests w' = requests ?w @ map (request c) (take (Suc m) ps)"
      by blast
    then show ?thesis
      using WriteToCloudWatch_None[where put=put and w=w and c=c and p=p, OF first] Suc by simp
  qed
qed


text \<open>The fixed size 20 is positive, so \<open>Write\<close> never sees a panic of \<open>PartitionDatums\<close>.\<close>

lemma PartitionDatums_concat:
  assumes "0 < size'"
  shows "\<exists>ps. PartitionDatums size' datums = Inr ps \<and> concat ps = datums"
proof -
  have k: "0 < nat size'" "size' = int (nat size')" using assms by simp_all
  have "concat (map (\<lambda>j. take (nat size') (drop (nat size' * j) datums))
           [0..<length datums div nat size' + (if length datums mod nat size' = 0 then 0 else 1)])
        = datums"
    using chunks_cover[OF k(1), of datums] by (simp add: concat_chunks)
  with PartitionDatums_chunks[OF k(1), of datums] k(2) show ?thesis by auto
qed

text \<open>
  Claim C9. In every write, whatever the client answers: the datums are cut into
  partitions (in order: their concatenation is the list of datums), and the requests made
  are requests for a prefix of the partitions, in partition order. If no request fails,
  every partition is submitted and \<open>Write\<close> returns \<open>nil\<close>. If the request for the \<open>n\<close>-th
  partition is the first that fails, \<open>Write\<close> returns that error, and the requests made
  are those for the partitions up to the \<open>n\<close>-th: no later partition is submitted.
\<close>

theorem Write_stops_at_first_error:
  "\<exists>parts. PartitionDatums maxDatumsPerCall (Write_datums c metrics orders) = Inr parts
      \<and> concat parts = Write_datums c metrics orders
      \<and> ((\<forall>i < length parts. response put c (svc w) parts i = None) \<longrightarrow>
           (\<exists>w'. Write put c w metrics orders = Inr (None, w')
                 \<and> requests w' = requests w @ map (request c) parts))
      \<and> (\<forall>n e. n < length parts \<and> response put c (svc w) parts n = Some e
                 \<and> (\<forall>i < n. response put c (svc w) parts i = None) \<longrightarrow>
           (\<exists>w'. Write put c w metrics orders = Inr (Some e, w')
                 \<and> requests w' = requests w @ map (request c) (take (Suc n) parts)))"
proof -
  have "(0::int) < maxDatumsPerCall" by (simp add: maxDatumsPerCall_def)
  from PartitionDatums_concat[OF this, of "Write_datums c metrics orders"]
  obtain parts where
    p: "PartitionDatums maxDatumsPerCall (Write_datums c metrics orders) = Inr parts"
    and cat: "concat parts = Write_datums c metrics orders"
    by blast
  have run: "Write put c w metrics orders = Inr (Write_partitions put c w parts)"
    by (simp add: Write_def p)
  have ok: "\<exists>w'. Write put c w metrics orders = Inr (None, w')
                 \<and> requests w' = requests w @ map (request c) parts"
    if "\<forall>i < length parts. response put c (svc w) parts i = None"
    using Write_partitions_all[OF that] run by auto
  have err: "\<exists>w'. Write put c w metrics orders = Inr (Some e, w')
                 \<and> requests w' = requests w @ map (request c) (take (Suc n) parts)"
    if "n < length parts \<and> response put c (svc w) parts n = Some e
                 \<and> (\<forall>i < n. response put c (svc w) parts i = None)" for n e
  proof -
    from that have a: "n < length parts" and b: "response put c (svc w) parts n = Some e"
      and c: "\<forall>i < n. response put c (svc w) parts i = None" by simp_all
    from Write_partitions_first_error[OF a b c] run show ?thesis by auto
  qed
  from p cat ok err show ?thesis by blast
qed

text \<open>
  The hypotheses of C9 at 41 metrics of one field each, hence three partitions of 20, 20
  and 1 datums: with a client that fails the second request, the error comes back and
  the third partition is never requested; with a client that never fails, all three are
  requested.
\<close>

theorem Write_stops_at_first_error_witness:
  "(\<exists>w'. Write (\<lambda>s p. (if s = 1 then Some (Error ''throttled'') else None, s + 1))
            \<lparr>CloudWatch.Namespace = ''ns'', HighResolutionMetrics = False, WriteStatistics = False\<rparr>
            \<lparr>svc = 0 :: nat, requests = [], logged = []\<rparr>
            (replicate 41 \<lparr>Metric.Name = ''m'', Tags = [], Fields = [(''x'', GoBool True)], Time = UnixTime 0\<rparr>)
            (\<lambda>i. ([''x''], \<lambda>k. [])) = Inr (Some (Error ''throttled''), w')
        \<and> requests w' =
            [\<lparr>MetricData = replicate 20 \<lparr>MetricName = Some ''m_x'', Dimensions = [], Timestamp = Some (UnixTime 0),
           Value = Some (Finite 1), StatisticValues = None, StorageResolution = Some 60\<rparr>, Namespace = Some ''ns''\<rparr>,
             \<lparr>MetricData = replicate 20 \<lparr>MetricName = Some ''m_x'', Dimensions = [], Timestamp = Some (UnixTime 0),
           Value = Some (Finite 1), StatisticValues = None, StorageResolution = Some 60\<rparr>, Namespace = Some ''ns''\<rparr>])
   \<and> (\<exists>w'. Write (\<lambda>s p. (None, s + 1))
            \<lparr>CloudWatch.Namespace = ''ns'', HighResolutionMetrics = False, WriteStatistics = False\<rparr>
            \<lparr>svc = 0 :: nat, requests = [], logged = []\<rparr>
            (replicate 41 \<lparr>Metric.Name = ''m'', Tags = [], Fields = [(''x'', GoBool True)], Time = UnixTime 0\<rparr>)
            (\<lambda>i. ([''x''], \<lambda>k. [])) = Inr (None, w')
        \<and> requests w' =
            [\<lparr>MetricData = replicate 20 \<lparr>MetricName = Some ''m_x'', Dimensions = [], Timestamp = Some (UnixTime 0),
           Value = Some (Finite 1), StatisticValues = None, StorageResolution = Some 60\<rparr>, Namespace = Some ''ns''\<rparr>,
             \<lparr>MetricData = replicate 20 \<lparr>MetricName = Some ''m_x'', Dimensions = [], Timestamp = Some (UnixTime 0),
           Value = Some (Finite 1), StatisticValues = None, StorageResolution = Some 60\<rparr>, Namespace = Some ''ns''\<rparr>,
             \<lparr>MetricData = [\<lparr>MetricName = Some ''m_x'', Dimensions = [], Timestamp = Some (UnixTime 0),
           Value = Some (Finite 1), StatisticValues = None, StorageResolution = Some 60\<rparr>], Namespace = Some ''ns''\<rparr>])"
proof -
  let ?m = "\<lparr>Metric.Name = ''m'', Tags = [], Fields = [(''x'', GoBool True)], Time = UnixTime 0\<rparr>"
  let ?d = "\<lparr>MetricName = Some ''m_x'', Dimensions = [], Timestamp = Some (UnixTime 0),
           Value = Some (Finite 1), StatisticValues = None, StorageResolution = Some 60\<rparr>"
  let ?c = "\<lparr>CloudWatch.Namespace = ''ns'', HighResolutionMetrics = False, WriteStatistics = False\<rparr>"
  let ?w = "\<lparr>svc = 0 :: nat, requests = [], logged = []\<rparr>"
  let ?ord = "(\<lambda>i. ([''x''], \<lambda>k. [])) :: nat \<Rightarrow> string list \<times> (string \<Rightarrow> statisticType list)"
  let ?put = "(\<lambda>s p. (if s = 1 then Some (Error ''throttled'') else None, s + 1)) :: nat \<Rightarrow> PutMetricDataInput \<Rightarrow> error option \<times> nat"
  let ?ok = "(\<lambda>s p. (None, s + 1)) :: nat \<Rightarrow> PutMetricDataInput \<Rightarrow> error option \<times> nat"
  let ?parts = "[replicate 20 ?d, replicate 20 ?d, [?d]]"
  have bm: "BuildMetricDatum False False ?m [''x''] vo = [?d]" for vo
    by (simp add: eval_defs)
  have "map (\<lambda>(i, m). BuildMetricDatum False False m [''x''] (\<lambda>k. []))
          (enumerate n (replicate j ?m)) = replicate j [?d]" for n j
    by (induction j arbitrary: n) (simp_all add: bm)
  moreover have "concat (replicate j [?d]) = replicate j ?d" for j
    by (induction j) simp_all
  ultimately have wd: "Write_datums ?c (replicate 41 ?m) ?ord = replicate 41 ?d"
    by (simp add: Write_datums_def)
  have pd: "PartitionDatums maxDatumsPerCall (replicate 41 ?d) = Inr ?parts"
    by (simp add: PartitionDatums_def partition_loop.simps slice_def maxDatumsPerCall_def
        signed_divide_int_def signed_modulo_int_def numeral_3_eq_3 min_def)
  have r0: "response ?put ?c (svc ?w) ?parts 0 = None"
    by (simp add: response_def svc_after_def)
  have r1: "response ?put ?c (svc ?w) ?parts 1 = Some (Error ''throttled'')"
    by (simp add: response_def svc_after_def)
  have ok: "\<forall>i < length ?parts. response ?ok ?c (svc ?w) ?parts i = None"
    by (simp add: response_def)
  from Write_stops_at_first_error[of ?c "replicate 41 ?m" ?ord ?put ?w]
  obtain parts where
    p: "PartitionDatums maxDatumsPerCall (Write_datums ?c (replicate 41 ?m) ?ord) = Inr parts"
    and e: "\<forall>n e. n < length parts \<and> response ?put ?c (svc ?w) parts n = Some e
                 \<and> (\<forall>i < n. response ?put ?c (svc ?w) parts i = None) \<longrightarrow>
           (\<exists>w'. Write ?put ?c ?w (replicate 41 ?m) ?ord = Inr (Some e, w')
                 \<and> requests w' = requests ?w @ map (request ?c) (take (Suc n) parts))"
    by blast
  from p have parts: "parts = ?parts"
    unfolding wd pd by simp
  have "1 < length ?parts \<and> response ?put ?c (svc ?w) ?parts 1 = Some (Error ''throttled'')
          \<and> (\<forall>i < 1. response ?put ?c (svc ?w) ?parts i = None)"
    using r0 r1 by simp
  with e[unfolded parts, rule_format, of 1 "Error ''throttled''"]
  have a: "\<exists>w'. Write ?put ?c ?w (replicate 41 ?m) ?ord = Inr (Some (Error ''throttled''), w')
        \<and> requests w' = requests ?w @ map (request ?c) (take (Suc 1) ?parts)"
    by blast
  from Write_stops_at_first_error[of ?c "replicate 41 ?m" ?ord ?ok ?w]
  obtain parts' where
    p': "PartitionDatums maxDatumsPerCall (Write_datums ?c (replicate 41 ?m) ?ord) = Inr parts'"
    and n: "(\<forall>i < length parts'. response ?ok ?c (svc ?w) parts' i = None) \<longrightarrow>
           (\<exists>w'. Write ?ok ?c ?w (replicate 41 ?m) ?ord = Inr (None, w')
                 \<and> requests w' = requests ?w @ map (request ?c) parts')"
    by blast
  from p' have parts': "parts' = ?parts"
    unfolding wd pd by simp
  from n[unfolded parts'] ok
  have b: "\<exists>w'. Write ?ok ?c ?w (replicate 41 ?m) ?ord = Inr (None, w')
        \<and> requests w' = requests ?w @ map (request ?c) ?parts"
    by blast
  from a b show ?thesis
    by (simp add: request_def)
qed

section \<open>Properties of \<open>convert\<close>\<close>

subsection \<open>The conversion of integers\<close>










subsection \<open>The boundary checks\<close>

lemma convert_Finite:
  assumes "convert_switch v = Some (Finite r)"
  shows "convert v =
           (if (0 < r \<and> r < 4503599796592203 / 2 ^ 411) \<or> 9007197019669729 * 2 ^ 306 < r
            then (Finite 0, False) else (Finite r, True))"
  using assms by (simp add: convert_def IsNaN_def IsInf_def lowerBound_def upperBound_def)

lemma convert_not_Finite:
  assumes "convert_switch v = Some x" "x = NaN \<or> x = PosInf \<or> x = NegInf"
  shows "convert v = (Finite 0, False)"
  using assms by (auto simp: convert_def IsNaN_def IsInf_def)





lemma convert_GoFloat64_Finite:
  "convert (GoFloat64 (Finite r)) =
           (if (0 < r \<and> r < 4503599796592203 / 2 ^ 411) \<or> 9007197019669729 * 2 ^ 306 < r
            then (Finite 0, False) else (Finite r, True))"
  by (rule convert_Finite) simp

text \<open>
  The two bounds and the decimal literals of the source: each bound lies below its
  literal, by less than half a unit in the last place of the bound (\<open>2 ^ -411\<close> for the
  lower bound, \<open>2 ^ 306\<close> for the upper one), so it is the 64-bit value nearest to the
  literal.
\<close>

lemma lowerBound_literal:
  "\<bar>(4503599796592203::real) / 2 ^ 411 - 8515920 / 10 ^ 115\<bar> < 1 / 2 ^ 412"
  by (simp add: abs_if field_simps)

lemma upperBound_literal:
  "\<bar>(9007197019669729::real) * 2 ^ 306 - 1174271 * 10 ^ 102\<bar> < 2 ^ 305"
  by (simp add: abs_if)

lemma lowerBound_below_literal: "(4503599796592203::real) / 2 ^ 411 < 8515920 / 10 ^ 115"
  by (simp add: field_simps)

lemma upperBound_below_literal: "(9007197019669729::real) * 2 ^ 306 < 1174271 * 10 ^ 102"
  by simp

text \<open>
  Claim C5. For every value \<open>x\<close> that the type switch of \<open>convert\<close> produces, \<open>convert\<close>
  returns \<open>ok = false\<close> exactly when \<open>x\<close> is NaN, or an infinity, or finite and either
  strictly positive and below the lower bound or above the upper bound, the bounds being
  the constants \<open>float64(8.515920e-109)\<close> and \<open>float64(1.174271e+108)\<close>; when \<open>ok\<close> is true
  the value returned is \<open>x\<close>; zero and every negative finite value is accepted. Of the
  values of the claim, \<open>1e-200\<close> and \<open>2e108\<close> are dropped and \<open>0\<close>, \<open>1.0\<close> and \<open>1e100\<close> are
  accepted.
\<close>

theorem convert_range_check:
  assumes "convert_switch v = Some x"
  shows "(snd (convert v) = False \<longleftrightarrow>
            x = NaN \<or> x = PosInf \<or> x = NegInf
            \<or> (\<exists>r. x = Finite r \<and> ((0 < r \<and> r < 4503599796592203 / 2 ^ 411)
                                    \<or> 9007197019669729 * 2 ^ 306 < r)))
         \<and> (snd (convert v) \<longrightarrow> fst (convert v) = x)
         \<and> (\<forall>r. x = Finite r \<and> r \<le> 0 \<longrightarrow> convert v = (Finite r, True))
         \<and> snd (convert (GoFloat64 (Finite (1 / 10 ^ 200)))) = False
         \<and> convert (GoFloat64 (Finite 0)) = (Finite 0, True)
         \<and> convert (GoFloat64 (Finite 1)) = (Finite 1, True)
         \<and> convert (GoFloat64 (Finite (10 ^ 100))) = (Finite (10 ^ 100), True)
         \<and> snd (convert (GoFloat64 (Finite (2 * 10 ^ 108)))) = False"
proof (intro conjI)
  show "snd (convert v) = False \<longleftrightarrow>
            x = NaN \<or> x = PosInf \<or> x = NegInf
            \<or> (\<exists>r. x = Finite r \<and> ((0 < r \<and> r < 4503599796592203 / 2 ^ 411)
                                    \<or> 9007197019669729 * 2 ^ 306 < r))"
  proof (cases x)
    case (Finite r)
    with convert_Finite[of v r] assms show ?thesis by simp
  qed (use convert_not_Finite[OF assms] in simp_all)
  show "snd (convert v) \<longrightarrow> fst (convert v) = x"
  proof (cases x)
    case (Finite r)
    with convert_Finite[of v r] assms show ?thesis by simp
  qed (use convert_not_Finite[OF assms] in simp_all)
  show "\<forall>r. x = Finite r \<and> r \<le> 0 \<longrightarrow> convert v = (Finite r, True)"
    using assms by (auto simp: convert_Finite)
  show "snd (convert (GoFloat64 (Finite (1 / 10 ^ 200)))) = False"
    by (simp add: convert_GoFloat64_Finite)
  show "convert (GoFloat64 (Finite 0)) = (Finite 0, True)"
    by (simp add: convert_GoFloat64_Finite)
  show "convert (GoFloat64 (Finite 1)) = (Finite 1, True)"
    by (simp add: convert_GoFloat64_Finite)
  show "convert (GoFloat64 (Finite (10 ^ 100))) = (Finite (10 ^ 100), True)"
    by (simp add: convert_GoFloat64_Finite)
  show "snd (convert (GoFloat64 (Finite (2 * 10 ^ 108)))) = False"
    by (simp add: convert_GoFloat64_Finite)
qed

text \<open>
  The hypothesis of C5 at a negative \<open>float64\<close>, at a boolean and at NaN.
\<close>

theorem convert_range_check_witness:
  "convert_switch (GoFloat64 (Finite (- 3))) = Some (Finite (- 3))
   \<and> convert (GoFloat64 (Finite (- 3))) = (Finite (- 3), True)
   \<and> convert_switch (GoBool True) = Some (Finite 1)
   \<and> fst (convert (GoBool True)) = Finite 1
   \<and> convert_switch (GoFloat64 NaN) = Some NaN
   \<and> snd (convert (GoFloat64 NaN)) = False"
proof -
  have a: "convert_switch (GoFloat64 (Finite (- 3))) = Some (Finite (- 3))" by simp
  have b: "convert_switch (GoBool True) = Some (Finite 1)" by simp
  have c: "convert_switch (GoFloat64 NaN) = Some NaN" by simp
  from convert_range_check[OF a] have a': "convert (GoFloat64 (Finite (- 3))) = (Finite (- 3), True)"
    by simp
  from convert_range_check[OF b] have b': "fst (convert (GoBool True)) = Finite 1"
    by simp
  from convert_range_check[OF c] have c': "snd (convert (GoFloat64 NaN)) = False"
    by simp
  from a a' b b' c c' show ?thesis by (intro conjI)
qed

text \<open>
  The type switch of \<open>convert\<close> has a case for \<open>int\<close>, \<open>int32\<close>, \<open>int64\<close> and \<open>uint64\<close>, and
  for no other integer type: a value that reached it as an \<open>int8\<close> or an \<open>int16\<close> would
  take the \<open>default\<close> case.
\<close>

lemma convert_int8_int16_default:
  "convert (GoInt8 t8) = (Finite 0, False)" "convert (GoInt16 t16) = (Finite 0, False)"
  by (simp_all add: convert_def)




end
